theory Spec2Isabelle
  imports Main "HOL-Library.Word" "HOL-Library.Monad_Syntax"
begin

section \<open>Types and constants of the missing headers\<close>

text \<open>
  The process core is \<^verbatim>\<open>src/proc.c\<close>. Its headers (\<^verbatim>\<open>proc.h\<close>, \<^verbatim>\<open>pagealloc.h\<close>,
  \<^verbatim>\<open>programs.h\<close>, \<^verbatim>\<open>kernel.h\<close>) are not among the sources, so the types and
  constants they declare are written down here from the way \<^verbatim>\<open>proc.c\<close> uses them and
  from the specification.

  A kernel routine is a function from the kernel state to an optional result. The value
  \<open>None\<close> stands for a call with no defined return: the hart spins for ever (on a lock that
  is taken, or in a loop that never meets its exit test), or the routine reads or writes
  through a null pointer or outside the process table.
\<close>

type_synonym regsize_t = "64 word"
type_synonym uint32_t = "32 word"

text \<open>Modelled from the spec: \<^verbatim>\<open>MAX_PROCS\<close> of \<^verbatim>\<open>proc.h\<close> ("small, e.g. 16").\<close>
definition MAX_PROCS :: nat where
  "MAX_PROCS = 16"

text \<open>Modelled from the spec: \<^verbatim>\<open>PAGE_SIZE\<close> of \<^verbatim>\<open>pagealloc.h\<close> (4 KiB).\<close>
definition PAGE_SIZE :: nat where
  "PAGE_SIZE = 4096"

text \<open>
  Modelled from the spec: the register indices of \<^verbatim>\<open>proc.h\<close>. The trap frame holds the 32
  general-purpose registers; the indices are the RISC-V register numbers of
  \<^verbatim>\<open>ra\<close>, \<^verbatim>\<open>sp\<close>, \<^verbatim>\<open>fp\<close>, \<^verbatim>\<open>a0\<close> and \<^verbatim>\<open>a1\<close>. The proofs use only that they differ
  and are below 32.
\<close>
definition REG_RA :: nat where
  "REG_RA = 1"

definition REG_SP :: nat where
  "REG_SP = 2"

definition REG_FP :: nat where
  "REG_FP = 8"

definition REG_A0 :: nat where
  "REG_A0 = 10"

definition REG_A1 :: nat where
  "REG_A1 = 11"

text \<open>
  Modelled from the spec: \<^verbatim>\<open>ONE_SECOND\<close> of \<^verbatim>\<open>kernel.h\<close>, the number of timer ticks in a
  second (a 10 MHz time base here). No proof looks at the value.
\<close>
definition ONE_SECOND :: regsize_t where
  "ONE_SECOND = 10000000"

datatype proc_state =
  PROC_STATE_AVAILABLE | PROC_STATE_READY | PROC_STATE_RUNNING | PROC_STATE_SLEEPING

text \<open>\<^verbatim>\<open>trap_frame_t\<close>: the array \<^verbatim>\<open>regs[32]\<close> and the saved \<^verbatim>\<open>pc\<close>.\<close>
record trap_frame_t =
  regs :: "regsize_t list"
  pc :: regsize_t

text \<open>
  \<^verbatim>\<open>process_t\<close>. A \<^verbatim>\<open>process_t*\<close> is the index of a slot of the table (an \<open>int\<close>, as
  \<^verbatim>\<open>&procs[curr_proc]\<close> is computed from one), and \<open>None\<close> is the null pointer. The field
  \<^verbatim>\<open>context\<close> is called \<open>proc_context\<close> here.
\<close>
record process_t =
  lock :: bool
  pid :: uint32_t
  name :: string
  parent :: "int option"
  proc_context :: trap_frame_t
  state :: proc_state
  stack_page :: regsize_t
  wakeup_time :: regsize_t

text \<open>\<^verbatim>\<open>proc_table_t\<close>; its \<^verbatim>\<open>lock\<close> is called \<open>table_lock\<close> here.\<close>
record proc_table_t =
  table_lock :: bool
  procs :: "process_t list"
  curr_proc :: int
  pid_counter :: uint32_t
  num_procs :: uint32_t
  is_idle :: bool

text \<open>\<^verbatim>\<open>user_program_t\<close> of \<^verbatim>\<open>programs.h\<close>: \<^verbatim>\<open>entry_point\<close> and \<^verbatim>\<open>name\<close>.\<close>
record user_program_t =
  entry_point :: regsize_t
  program_name :: string

text \<open>
  The global state: \<^verbatim>\<open>proc_table\<close> and \<^verbatim>\<open>trap_frame\<close> of \<^verbatim>\<open>proc.c\<close>, the machine timer
  that \<^verbatim>\<open>time_get_now\<close> reads (it stands still during one kernel entry), the page
  allocator's region and bitmap, the memory (the bytes of the page frame at each frame
  address), and the static table of user programs.
\<close>
record kernel =
  proc_table :: proc_table_t
  trap_frame :: trap_frame_t
  mtime :: regsize_t
  heap_base :: regsize_t
  page_bitmap :: "bool list"
  memory :: "regsize_t \<Rightarrow> 8 word list"
  user_programs :: "user_program_t list"

section \<open>Pointers into the process table and locks\<close>

definition valid_slot :: "int \<Rightarrow> bool" where
  "valid_slot p \<longleftrightarrow> 0 \<le> p \<and> p < int MAX_PROCS"

definition slot :: "kernel \<Rightarrow> int \<Rightarrow> process_t" where
  "slot k p = procs (proc_table k) ! nat p"

definition upd_slot :: "int \<Rightarrow> (process_t \<Rightarrow> process_t) \<Rightarrow> kernel \<Rightarrow> kernel" where
  "upd_slot p f k =
     k\<lparr>proc_table := (proc_table k)
        \<lparr>procs := (procs (proc_table k))[nat p := f (procs (proc_table k) ! nat p)]\<rparr>\<rparr>"

datatype lock_ref = Table_lock | Proc_lock int

text \<open>
  Modelled from the spec: \<^verbatim>\<open>acquire\<close> and \<^verbatim>\<open>release\<close> (the spin lock is not among the
  sources). A lock is a mutual-exclusion token: \<^verbatim>\<open>acquire\<close> takes a free token and never
  returns on the single hart while the token is taken; \<^verbatim>\<open>release\<close> gives it back. Reaching
  the lock of a slot dereferences the slot pointer.
\<close>
definition acquire :: "lock_ref \<Rightarrow> kernel \<Rightarrow> kernel option" where
  "acquire l k =
     (case l of
        Table_lock \<Rightarrow>
          if table_lock (proc_table k) then None
          else Some (k\<lparr>proc_table := (proc_table k)\<lparr>table_lock := True\<rparr>\<rparr>)
      | Proc_lock p \<Rightarrow>
          if \<not> valid_slot p then None
          else if lock (slot k p) then None
          else Some (upd_slot p (\<lambda>s. s\<lparr>lock := True\<rparr>) k))"

definition release :: "lock_ref \<Rightarrow> kernel \<Rightarrow> kernel" where
  "release l k =
     (case l of
        Table_lock \<Rightarrow> k\<lparr>proc_table := (proc_table k)\<lparr>table_lock := False\<rparr>\<rparr>
      | Proc_lock p \<Rightarrow> upd_slot p (\<lambda>s. s\<lparr>lock := False\<rparr>) k)"

section \<open>The page allocator\<close>

text \<open>
  Modelled from the spec: \<^verbatim>\<open>allocate_page\<close>, \<^verbatim>\<open>release_page\<close> and \<^verbatim>\<open>copy_page\<close> of the
  page allocator, which is not among the sources. A bitmap over the frames of
  \<^verbatim>\<open>PAGE_SIZE\<close> bytes that start at \<open>heap_base\<close>; \<open>True\<close> marks a frame in use.
  \<^verbatim>\<open>allocate_page\<close> is first-fit and returns the null address when no frame is free;
  \<^verbatim>\<open>release_page\<close> marks a frame free, and releasing what is not an allocated frame is a
  programming error with no defined result; \<^verbatim>\<open>copy_page\<close> copies the \<^verbatim>\<open>PAGE_SIZE\<close> bytes
  of one frame to another.
\<close>
definition page_address :: "kernel \<Rightarrow> nat \<Rightarrow> regsize_t" where
  "page_address k i = heap_base k + of_nat (i * PAGE_SIZE)"

definition page_number :: "kernel \<Rightarrow> regsize_t \<Rightarrow> nat option" where
  "page_number k p =
     (let off = unat (p - heap_base k) in
      if off mod PAGE_SIZE = 0 \<and> off div PAGE_SIZE < length (page_bitmap k)
      then Some (off div PAGE_SIZE) else None)"

definition allocate_page :: "kernel \<Rightarrow> regsize_t \<times> kernel" where
  "allocate_page k =
     (case find (\<lambda>i. \<not> page_bitmap k ! i) [0..<length (page_bitmap k)] of
        None \<Rightarrow> (0, k)
      | Some i \<Rightarrow> (page_address k i, k\<lparr>page_bitmap := (page_bitmap k)[i := True]\<rparr>))"

definition release_page :: "regsize_t \<Rightarrow> kernel \<Rightarrow> kernel option" where
  "release_page p k =
     (case page_number k p of
        None \<Rightarrow> None
      | Some i \<Rightarrow>
          if page_bitmap k ! i then Some (k\<lparr>page_bitmap := (page_bitmap k)[i := False]\<rparr>)
          else None)"

definition copy_page :: "regsize_t \<Rightarrow> regsize_t \<Rightarrow> kernel \<Rightarrow> kernel" where
  "copy_page dst src k = k\<lparr>memory := (memory k)(dst := memory k src)\<rparr>"

text \<open>Modelled from the spec: \<^verbatim>\<open>freeram\<close> of \<^verbatim>\<open>sysinfo\<close>, the number of free frames.\<close>
definition freeram :: "kernel \<Rightarrow> nat" where
  "freeram k = length (filter Not (page_bitmap k))"

text \<open>
  Modelled from the spec: \<^verbatim>\<open>find_user_program\<close> of the programs table, which is not among
  the sources: the entry with the given name, or null.
\<close>
definition find_user_program :: "string \<Rightarrow> kernel \<Rightarrow> user_program_t option" where
  "find_user_program filename k = find (\<lambda>p. program_name p = filename) (user_programs k)"

section \<open>proc.c\<close>

text \<open>
  \<^verbatim>\<open>init_process_table\<close>. The routine \<^verbatim>\<open>init_test_processes\<close> that it calls last is not
  among the sources and is a parameter.
\<close>
definition init_process_table :: "(kernel \<Rightarrow> kernel option) \<Rightarrow> kernel \<Rightarrow> kernel option" where
  "init_process_table init_test_processes k =
     (let k = k\<lparr>proc_table := (proc_table k)\<lparr>curr_proc := - 1\<rparr>\<rparr>;
          k = k\<lparr>proc_table := (proc_table k)\<lparr>pid_counter := 0\<rparr>\<rparr>;
          k = k\<lparr>proc_table := (proc_table k)\<lparr>is_idle := True\<rparr>\<rparr>;
          k = k\<lparr>proc_table := (proc_table k)
                 \<lparr>procs := map (\<lambda>s. s\<lparr>state := PROC_STATE_AVAILABLE\<rparr>) (procs (proc_table k))\<rparr>\<rparr>
      in init_test_processes k)"

definition copy_context :: "trap_frame_t \<Rightarrow> trap_frame_t \<Rightarrow> trap_frame_t" where
  "copy_context dst src =
     dst\<lparr>regs := fold (\<lambda>i r. r[i := regs src ! i]) [0..<32] (regs dst)\<rparr>"

definition should_wake_up :: "kernel \<Rightarrow> process_t \<Rightarrow> bool" where
  "should_wake_up k proc = (let now = mtime k in if wakeup_time proc \<le> now then True else False)"

text \<open>
  The \<^verbatim>\<open>do ... while\<close> loop of \<^verbatim>\<open>find_ready_proc\<close>: the result is the last value of
  \<^verbatim>\<open>curr_proc\<close>, which is also the slot that \<^verbatim>\<open>proc\<close> points to.
\<close>
partial_function (option) find_ready_loop :: "kernel \<Rightarrow> int \<Rightarrow> int \<Rightarrow> (int \<times> kernel) option" where
  "find_ready_loop k orig_curr cur =
     (let cur = cur + 1;
          cur = (if cur \<ge> int MAX_PROCS then 0 else cur)
      in if \<not> valid_slot cur then None
         else if state (slot k cur) = PROC_STATE_READY then Some (cur, k)
         else if state (slot k cur) = PROC_STATE_SLEEPING \<and> should_wake_up k (slot k cur)
         then Some (cur, upd_slot cur (\<lambda>s. s\<lparr>state := PROC_STATE_READY\<rparr>) k)
         else if cur \<noteq> orig_curr then find_ready_loop k orig_curr cur
         else Some (cur, k))"

declare find_ready_loop.simps [code]

definition find_ready_proc :: "int \<Rightarrow> kernel \<Rightarrow> (int option \<times> kernel) option" where
  "find_ready_proc orig_curr k = do {
     (cur, k) \<leftarrow> find_ready_loop k orig_curr orig_curr;
     let k = k\<lparr>proc_table := (proc_table k)\<lparr>curr_proc := cur\<rparr>\<rparr>;
     if state (slot k cur) = PROC_STATE_SLEEPING then Some (None, k)
     else Some (Some cur, k)
   }"

text \<open>
  \<^verbatim>\<open>schedule_user_process\<close>. Arming the timer, enabling interrupts, parking the hart and
  \<^verbatim>\<open>set_user_mode\<close> act on control registers that are not part of the state; on the idle
  path the result is the state in which the hart parks.
\<close>
definition schedule_user_process :: "kernel \<Rightarrow> kernel option" where
  "schedule_user_process k = do {
     k \<leftarrow> acquire Table_lock k;
     let cur = curr_proc (proc_table k);
     (cur, last_proc) \<leftarrow>
        (if cur < 0 then Some (0, None)
         else if \<not> valid_slot cur then None
         else if state (slot k cur) = PROC_STATE_AVAILABLE \<or> is_idle (proc_table k)
         then Some (cur, None)
         else Some (cur, Some cur));
     if num_procs (proc_table k) = 0 then Some (release Table_lock k)
     else do {
       (proc, k) \<leftarrow> find_ready_proc cur k;
       case proc of
         None \<Rightarrow>
           (let k = k\<lparr>proc_table := (proc_table k)\<lparr>is_idle := True\<rparr>\<rparr>
            in Some (release Table_lock k))
       | Some proc \<Rightarrow> do {
           k \<leftarrow> acquire (Proc_lock proc) k;
           let k = upd_slot proc (\<lambda>s. s\<lparr>state := PROC_STATE_RUNNING\<rparr>) k;
           k \<leftarrow>
             (case last_proc of
                None \<Rightarrow>
                  Some (k\<lparr>trap_frame := copy_context (trap_frame k) (proc_context (slot k proc))\<rparr>)
              | Some last_proc \<Rightarrow>
                  if pid (slot k last_proc) \<noteq> pid (slot k proc) then do {
                    k \<leftarrow> acquire (Proc_lock last_proc) k;
                    let k = upd_slot last_proc
                          (\<lambda>s. s\<lparr>proc_context := copy_context (proc_context s) (trap_frame k)\<rparr>) k;
                    let k = upd_slot last_proc (\<lambda>s. s\<lparr>state := PROC_STATE_READY\<rparr>) k;
                    let k = release (Proc_lock last_proc) k;
                    Some (k\<lparr>trap_frame :=
                              copy_context (trap_frame k) (proc_context (slot k proc))\<rparr>)
                  }
                  else Some k);
           let k = release (Proc_lock proc) k;
           let k = k\<lparr>proc_table := (proc_table k)\<lparr>is_idle := False\<rparr>\<rparr>;
           Some (release Table_lock k)
         }
     }
   }"

definition alloc_pid :: "kernel \<Rightarrow> (uint32_t \<times> kernel) option" where
  "alloc_pid k = do {
     k \<leftarrow> acquire Table_lock k;
     let new_pid = pid_counter (proc_table k);
     let k = k\<lparr>proc_table := (proc_table k)\<lparr>pid_counter := pid_counter (proc_table k) + 1\<rparr>\<rparr>;
     let k = release Table_lock k;
     Some (new_pid, k)
   }"

text \<open>The \<^verbatim>\<open>for\<close> loop of \<^verbatim>\<open>alloc_process\<close> over the slot numbers still to visit.\<close>
fun alloc_process_loop :: "nat list \<Rightarrow> kernel \<Rightarrow> (int option \<times> kernel) option" where
  "alloc_process_loop [] k = Some (None, release Table_lock k)"
| "alloc_process_loop (i # rest) k =
     (if int i = curr_proc (proc_table k) then alloc_process_loop rest k
      else if state (slot k (int i)) = PROC_STATE_AVAILABLE then do {
        let proc = int i;
        k \<leftarrow> acquire (Proc_lock proc) k;
        let k = upd_slot proc (\<lambda>s. s\<lparr>state := PROC_STATE_READY\<rparr>) k;
        let k = k\<lparr>proc_table := (proc_table k)\<lparr>num_procs := num_procs (proc_table k) + 1\<rparr>\<rparr>;
        let k = release Table_lock k;
        Some (Some proc, k)
      }
      else alloc_process_loop rest k)"

definition alloc_process :: "kernel \<Rightarrow> (int option \<times> kernel) option" where
  "alloc_process k = do {
     k \<leftarrow> acquire Table_lock k;
     alloc_process_loop [0..<MAX_PROCS] k
   }"

definition current_proc :: "kernel \<Rightarrow> (int option \<times> kernel) option" where
  "current_proc k = do {
     k \<leftarrow> acquire Table_lock k;
     if num_procs (proc_table k) = 0 then Some (None, k)
     else do {
       let proc = curr_proc (proc_table k);
       let k = release Table_lock k;
       Some (Some proc, k)
     }
   }"

definition proc_fork :: "kernel \<Rightarrow> (uint32_t \<times> kernel) option" where
  "proc_fork k =
     (let (sp, k) = allocate_page k in
      if sp = 0 then Some (- 1, k)
      else do {
        (par, k) \<leftarrow> current_proc k;
        case par of
          None \<Rightarrow> do {
            k \<leftarrow> release_page sp k;
            Some (- 1, k)
          }
        | Some par \<Rightarrow> do {
            k \<leftarrow> acquire (Proc_lock par) k;
            let k = upd_slot par
                  (\<lambda>s. s\<lparr>proc_context := (proc_context s)\<lparr>pc := pc (trap_frame k)\<rparr>\<rparr>) k;
            let k = upd_slot par
                  (\<lambda>s. s\<lparr>proc_context := copy_context (proc_context s) (trap_frame k)\<rparr>) k;
            (child, k) \<leftarrow> alloc_process k;
            case child of
              None \<Rightarrow> do {
                k \<leftarrow> release_page sp k;
                let k = release (Proc_lock par) k;
                Some (- 1, k)
              }
            | Some child \<Rightarrow> do {
                (new_pid, k) \<leftarrow> alloc_pid k;
                let k = upd_slot child (\<lambda>s. s\<lparr>pid := new_pid\<rparr>) k;
                let k = upd_slot child (\<lambda>s. s\<lparr>parent := Some par\<rparr>) k;
                let k = upd_slot child
                      (\<lambda>s. s\<lparr>proc_context :=
                               (proc_context s)\<lparr>pc := pc (proc_context (slot k par))\<rparr>\<rparr>) k;
                let k = upd_slot child (\<lambda>s. s\<lparr>stack_page := sp\<rparr>) k;
                let k = copy_page (stack_page (slot k child)) (stack_page (slot k par)) k;
                let k = upd_slot child
                      (\<lambda>s. s\<lparr>proc_context :=
                               copy_context (proc_context s) (proc_context (slot k par))\<rparr>) k;
                let offset = regs (proc_context (slot k par)) ! REG_SP
                             - stack_page (slot k par);
                let k = upd_slot child
                      (\<lambda>s. s\<lparr>proc_context :=
                               (proc_context s)\<lparr>regs := (regs (proc_context s))
                                                        [REG_SP := sp + offset]\<rparr>\<rparr>) k;
                let offset = regs (proc_context (slot k par)) ! REG_FP
                             - stack_page (slot k par);
                let k = upd_slot child
                      (\<lambda>s. s\<lparr>proc_context :=
                               (proc_context s)\<lparr>regs := (regs (proc_context s))
                                                        [REG_FP := sp + offset]\<rparr>\<rparr>) k;
                let k = upd_slot child
                      (\<lambda>s. s\<lparr>proc_context :=
                               (proc_context s)\<lparr>regs := (regs (proc_context s))
                                                        [REG_A0 := 0]\<rparr>\<rparr>) k;
                let k = release (Proc_lock par) k;
                let k = release (Proc_lock child) k;
                let k = k\<lparr>trap_frame := (trap_frame k)
                          \<lparr>regs := (regs (trap_frame k))[REG_A0 := ucast (pid (slot k child))]\<rparr>\<rparr>;
                Some (pid (slot k child), k)
              }
          }
      })"

text \<open>
  \<^verbatim>\<open>proc_execv\<close>. The file name is a string or the null pointer; \<^verbatim>\<open>argv\<close> is the address
  of the argument vector.
\<close>
definition proc_execv :: "string option \<Rightarrow> regsize_t \<Rightarrow> kernel \<Rightarrow> (uint32_t \<times> kernel) option" where
  "proc_execv filename argv k =
     (case filename of
        None \<Rightarrow> Some (- 1, k)
      | Some filename \<Rightarrow>
         (case find_user_program filename k of
            None \<Rightarrow> Some (- 1, k)
          | Some program \<Rightarrow>
             (let (sp, k) = allocate_page k in
              if sp = 0 then Some (- 1, k)
              else do {
                (proc, k) \<leftarrow> current_proc k;
                case proc of
                  None \<Rightarrow> Some (- 1, k)
                | Some proc \<Rightarrow> do {
                    k \<leftarrow> acquire (Proc_lock proc) k;
                    let k = upd_slot proc
                          (\<lambda>s. s\<lparr>proc_context := (proc_context s)\<lparr>pc := entry_point program\<rparr>\<rparr>) k;
                    let k = upd_slot proc (\<lambda>s. s\<lparr>name := program_name program\<rparr>) k;
                    k \<leftarrow> release_page (stack_page (slot k proc)) k;
                    let k = upd_slot proc (\<lambda>s. s\<lparr>stack_page := sp\<rparr>) k;
                    let k = upd_slot proc
                          (\<lambda>s. s\<lparr>proc_context :=
                                   (proc_context s)\<lparr>regs := (regs (proc_context s))
                                                            [REG_RA := pc (proc_context s)]\<rparr>\<rparr>) k;
                    let k = upd_slot proc
                          (\<lambda>s. s\<lparr>proc_context :=
                                   (proc_context s)\<lparr>regs := (regs (proc_context s))
                                                            [REG_SP := sp + of_nat PAGE_SIZE]\<rparr>\<rparr>) k;
                    let k = upd_slot proc
                          (\<lambda>s. s\<lparr>proc_context :=
                                   (proc_context s)\<lparr>regs := (regs (proc_context s))
                                                            [REG_FP := sp + of_nat PAGE_SIZE]\<rparr>\<rparr>) k;
                    let k = upd_slot proc
                          (\<lambda>s. s\<lparr>proc_context :=
                                   (proc_context s)\<lparr>regs := (regs (proc_context s))
                                                            [REG_A0 := 7]\<rparr>\<rparr>) k;
                    let k = upd_slot proc
                          (\<lambda>s. s\<lparr>proc_context :=
                                   (proc_context s)\<lparr>regs := (regs (proc_context s))
                                                            [REG_A1 := argv]\<rparr>\<rparr>) k;
                    let k = k\<lparr>trap_frame :=
                                copy_context (trap_frame k) (proc_context (slot k proc))\<rparr>;
                    let k = release (Proc_lock proc) k;
                    Some (0, k)
                  }
              })))"

definition proc_exit :: "kernel \<Rightarrow> kernel option" where
  "proc_exit k = do {
     (proc, k) \<leftarrow> current_proc k;
     case proc of
       None \<Rightarrow> Some k
     | Some proc \<Rightarrow> do {
         k \<leftarrow> acquire (Proc_lock proc) k;
         k \<leftarrow> release_page (stack_page (slot k proc)) k;
         let k = upd_slot proc (\<lambda>s. s\<lparr>state := PROC_STATE_AVAILABLE\<rparr>) k;
         case parent (slot k proc) of
           None \<Rightarrow> None
         | Some par \<Rightarrow> do {
             k \<leftarrow> acquire (Proc_lock par) k;
             let k = upd_slot par (\<lambda>s. s\<lparr>state := PROC_STATE_READY\<rparr>) k;
             let k = release (Proc_lock par) k;
             let k = release (Proc_lock proc) k;
             k \<leftarrow> acquire Table_lock k;
             let k = k\<lparr>proc_table := (proc_table k)\<lparr>num_procs := num_procs (proc_table k) - 1\<rparr>\<rparr>;
             let k = release Table_lock k;
             schedule_user_process k
           }
       }
   }"

definition wait_or_sleep :: "regsize_t \<Rightarrow> kernel \<Rightarrow> (uint32_t \<times> kernel) option" where
  "wait_or_sleep wakeup k = do {
     (proc, k) \<leftarrow> current_proc k;
     case proc of
       None \<Rightarrow> Some (- 1, k)
     | Some proc \<Rightarrow> do {
         k \<leftarrow> acquire (Proc_lock proc) k;
         let k = upd_slot proc (\<lambda>s. s\<lparr>state := PROC_STATE_SLEEPING\<rparr>) k;
         let k = upd_slot proc (\<lambda>s. s\<lparr>wakeup_time := wakeup\<rparr>) k;
         let k = upd_slot proc
               (\<lambda>s. s\<lparr>proc_context := copy_context (proc_context s) (trap_frame k)\<rparr>) k;
         let k = release (Proc_lock proc) k;
         k \<leftarrow> schedule_user_process k;
         Some (0, k)
       }
   }"

definition proc_wait :: "kernel \<Rightarrow> (uint32_t \<times> kernel) option" where
  "proc_wait k = wait_or_sleep 0 k"

definition proc_sleep :: "regsize_t \<Rightarrow> kernel \<Rightarrow> (uint32_t \<times> kernel) option" where
  "proc_sleep milliseconds k =
     (let now = mtime k;
          delta = (ONE_SECOND div 1000) * milliseconds
      in wait_or_sleep (now + delta) k)"

section \<open>Predicates of the specification\<close>

text \<open>
  The election predicate in the words of the specification: a slot is \<^verbatim>\<open>READY\<close>, or it is
  \<^verbatim>\<open>SLEEPING\<close> with \<^verbatim>\<open>wakeup_time\<close> at most the present time.
\<close>
definition wakeable :: "kernel \<Rightarrow> process_t \<Rightarrow> bool" where
  "wakeable k p \<longleftrightarrow>
     state p = PROC_STATE_READY \<or> (state p = PROC_STATE_SLEEPING \<and> wakeup_time p \<le> mtime k)"

text \<open>What \<^verbatim>\<open>find_ready_proc\<close> does to the slot it elects.\<close>
definition promote :: "int \<Rightarrow> kernel \<Rightarrow> kernel" where
  "promote i k =
     (if state (slot k i) = PROC_STATE_READY then k
      else upd_slot i (\<lambda>s. s\<lparr>state := PROC_STATE_READY\<rparr>) k)"

text \<open>
  The arrays of C have their declared length, and the allocator's region neither starts at
  the null address nor wraps around the address space.
\<close>
definition wf_frame :: "trap_frame_t \<Rightarrow> bool" where
  "wf_frame f \<longleftrightarrow> length (regs f) = 32"

definition wf_table :: "kernel \<Rightarrow> bool" where
  "wf_table k \<longleftrightarrow>
     length (procs (proc_table k)) = MAX_PROCS
     \<and> wf_frame (trap_frame k)
     \<and> list_all (\<lambda>s. wf_frame (proc_context s)) (procs (proc_table k))"

definition wf_pages :: "kernel \<Rightarrow> bool" where
  "wf_pages k \<longleftrightarrow>
     heap_base k \<noteq> 0 \<and> unat (heap_base k) + length (page_bitmap k) * PAGE_SIZE \<le> 2 ^ 64"

text \<open>\<open>n\<close> successive calls of \<^verbatim>\<open>alloc_pid\<close> and the pids they return, in order.\<close>
fun alloc_pids :: "nat \<Rightarrow> kernel \<Rightarrow> (uint32_t list \<times> kernel) option" where
  "alloc_pids 0 k = Some ([], k)"
| "alloc_pids (Suc n) k = do {
     (p, k) \<leftarrow> alloc_pid k;
     (ps, k) \<leftarrow> alloc_pids n k;
     Some (p # ps, k)
   }"

section \<open>Example states\<close>

definition zero_frame :: trap_frame_t where
  "zero_frame = \<lparr>regs = replicate 32 0, pc = 0\<rparr>"

definition empty_slot :: process_t where
  "empty_slot = \<lparr>lock = False, pid = 0, name = [], parent = None, proc_context = zero_frame,
     state = PROC_STATE_AVAILABLE, stack_page = 0, wakeup_time = 0\<rparr>"

definition boot_table :: proc_table_t where
  "boot_table = \<lparr>table_lock = False, procs = replicate MAX_PROCS empty_slot, curr_proc = - 1,
     pid_counter = 0, num_procs = 0, is_idle = True\<rparr>"

text \<open>A machine with four page frames and one user program, before any process exists.\<close>
definition boot_kernel :: kernel where
  "boot_kernel = \<lparr>proc_table = boot_table, trap_frame = zero_frame, mtime = 0,
     heap_base = 0x80100000, page_bitmap = replicate 4 False,
     memory = (\<lambda>a. replicate PAGE_SIZE 0),
     user_programs = [\<lparr>entry_point = 0x80001000, program_name = ''shell''\<rparr>]\<rparr>"

text \<open>One process, pid 0, runs in slot 0 at time 5; every other slot is available.\<close>
definition one_proc_kernel :: kernel where
  "one_proc_kernel = boot_kernel
     \<lparr>proc_table := boot_table
        \<lparr>procs := (procs boot_table)
           [0 := empty_slot\<lparr>pid := 0, state := PROC_STATE_RUNNING, stack_page := 0x80100000\<rparr>],
         curr_proc := 0, pid_counter := 1, num_procs := 1, is_idle := False\<rparr>,
      page_bitmap := [True, False, False, False], mtime := 5\<rparr>"

text \<open>
  As before, and its child, pid 1, is ready in slot 1 with a saved \<^verbatim>\<open>pc\<close> that differs from
  the one in the trap frame.
\<close>
definition two_proc_kernel :: kernel where
  "two_proc_kernel = boot_kernel
     \<lparr>proc_table := boot_table
        \<lparr>procs := (procs boot_table)
           [0 := empty_slot\<lparr>pid := 0, state := PROC_STATE_RUNNING, stack_page := 0x80100000\<rparr>,
            1 := empty_slot\<lparr>pid := 1, state := PROC_STATE_READY, stack_page := 0x80101000,
                            parent := Some 0,
                            proc_context := zero_frame\<lparr>pc := 0x80001040\<rparr>\<rparr>],
         curr_proc := 0, pid_counter := 2, num_procs := 2, is_idle := False\<rparr>,
      trap_frame := zero_frame\<lparr>pc := 0x80001080\<rparr>,
      page_bitmap := [True, True, False, False], mtime := 5\<rparr>"

text \<open>
  One process, pid 0, runs in slot 0, and \<^verbatim>\<open>pid_counter\<close> has reached its last value
  before it wraps around, as it has after \<open>2 ^ 32 - 1\<close> calls of \<^verbatim>\<open>alloc_pid\<close>.
\<close>
definition wrapping_kernel :: kernel where
  "wrapping_kernel = one_proc_kernel
     \<lparr>proc_table := (proc_table one_proc_kernel)\<lparr>pid_counter := 0xFFFFFFFF\<rparr>\<rparr>"

text \<open>The only process sleeps in slot 0 until time 100; the time is 5.\<close>
definition sleeper_kernel :: kernel where
  "sleeper_kernel = boot_kernel
     \<lparr>proc_table := boot_table
        \<lparr>procs := (procs boot_table)
           [0 := empty_slot\<lparr>pid := 0, state := PROC_STATE_SLEEPING, stack_page := 0x80100000,
                            wakeup_time := 100\<rparr>],
         curr_proc := 0, pid_counter := 1, num_procs := 1, is_idle := False\<rparr>,
      page_bitmap := [True, False, False, False], mtime := 5\<rparr>"

text \<open>
  The parent, pid 0 in slot 0, is in a timed sleep until time 1000000; its child, pid 1,
  runs in slot 1; the time is 5.
\<close>
definition child_running_kernel :: kernel where
  "child_running_kernel = boot_kernel
     \<lparr>proc_table := boot_table
        \<lparr>procs := (procs boot_table)
           [0 := empty_slot\<lparr>pid := 0, state := PROC_STATE_SLEEPING, stack_page := 0x80100000,
                            wakeup_time := 1000000\<rparr>,
            1 := empty_slot\<lparr>pid := 1, state := PROC_STATE_RUNNING, stack_page := 0x80101000,
                            parent := Some 0\<rparr>],
         curr_proc := 1, pid_counter := 2, num_procs := 2, is_idle := False\<rparr>,
      page_bitmap := [True, True, False, False], mtime := 5\<rparr>"

text \<open>One process runs and every page frame is in use.\<close>
definition full_memory_kernel :: kernel where
  "full_memory_kernel = one_proc_kernel\<lparr>page_bitmap := [True, True, True, True]\<rparr>"

text \<open>One process runs, every other slot holds a ready process, and page frames are free.\<close>
definition full_table_kernel :: kernel where
  "full_table_kernel = one_proc_kernel
     \<lparr>proc_table := (proc_table one_proc_kernel)
        \<lparr>procs := (replicate MAX_PROCS (empty_slot\<lparr>state := PROC_STATE_READY\<rparr>))
           [0 := empty_slot\<lparr>pid := 0, state := PROC_STATE_RUNNING, stack_page := 0x80100000\<rparr>],
         num_procs := 16\<rparr>\<rparr>"

section \<open>The state after the elementary steps\<close>

lemma MAX_PROCS_pos: "0 < MAX_PROCS"
  by (simp add: MAX_PROCS_def)

lemma trap_frame_upd_slot [simp]: "trap_frame (upd_slot p f k) = trap_frame k"
  by (simp add: upd_slot_def)

lemma trap_frame_release [simp]: "trap_frame (release l k) = trap_frame k"
  by (simp add: release_def split: lock_ref.splits)

lemma trap_frame_acquire: "acquire l k = Some k' \<Longrightarrow> trap_frame k' = trap_frame k"
  by (auto simp: acquire_def split: lock_ref.splits if_splits)

lemma slot_curr_proc_update [simp]:
  "slot (k\<lparr>proc_table := (proc_table k)\<lparr>curr_proc := c\<rparr>\<rparr>) i = slot k i"
  by (simp add: slot_def)

lemma ex_slot_iff:
  assumes "length (procs (proc_table k)) = MAX_PROCS"
  shows "(\<exists>i. valid_slot i \<and> P (slot k i)) \<longleftrightarrow> list_ex P (procs (proc_table k))"
proof
  assume "\<exists>i. valid_slot i \<and> P (slot k i)"
  then obtain i where "valid_slot i" "P (slot k i)" by blast
  then have "nat i < length (procs (proc_table k))" "P (procs (proc_table k) ! nat i)"
    using assms by (auto simp: valid_slot_def slot_def)
  then show "list_ex P (procs (proc_table k))"
    unfolding list_ex_iff using nth_mem by blast
next
  assume "list_ex P (procs (proc_table k))"
  then obtain n where n: "n < length (procs (proc_table k))" "P (procs (proc_table k) ! n)"
    by (auto simp: list_ex_iff in_set_conv_nth)
  then have "valid_slot (int n) \<and> P (slot k (int n))"
    using assms by (simp add: valid_slot_def slot_def)
  then show "\<exists>i. valid_slot i \<and> P (slot k i)" by blast
qed

subsection \<open>\<^verbatim>\<open>copy_context\<close>\<close>

lemma pc_copy_context [simp]: "pc (copy_context dst src) = pc dst"
  by (simp add: copy_context_def)

lemma fold_update_upt:
  "n \<le> length r \<Longrightarrow> length r = length s \<Longrightarrow>
     fold (\<lambda>i r. r[i := s ! i]) [0..<n] r = take n s @ drop n r"
proof (induction n)
  case 0
  then show ?case by simp
next
  case (Suc n)
  then have "fold (\<lambda>i r. r[i := s ! i]) [0..<Suc n] r = (take n s @ drop n r)[n := s ! n]"
    by simp
  also have "\<dots> = take (Suc n) s @ drop (Suc n) r"
    using Suc.prems
    by (simp add: list_update_append take_Suc_conv_app_nth upd_conv_take_nth_drop)
  finally show ?case .
qed

lemma regs_copy_context:
  "wf_frame dst \<Longrightarrow> wf_frame src \<Longrightarrow> regs (copy_context dst src) = regs src"
  by (simp add: wf_frame_def copy_context_def fold_update_upt)

subsection \<open>The scan of \<^verbatim>\<open>find_ready_proc\<close>\<close>

lemma next_slot_valid: "valid_slot ((c + 1) mod int MAX_PROCS)"
  using MAX_PROCS_pos by (simp add: valid_slot_def)

lemma find_ready_loop_step:
  assumes "valid_slot cur"
  shows "find_ready_loop k orig cur =
     (let c = (cur + 1) mod int MAX_PROCS in
      if wakeable k (slot k c) then Some (c, promote c k)
      else if c \<noteq> orig then find_ready_loop k orig c
      else Some (c, k))"
proof -
  have c: "(if int MAX_PROCS \<le> cur + 1 then 0 else cur + 1) = (cur + 1) mod int MAX_PROCS"
  proof (cases "int MAX_PROCS \<le> cur + 1")
    case True
    then have "cur + 1 = int MAX_PROCS" using assms by (simp add: valid_slot_def)
    then show ?thesis by simp
  next
    case False
    then show ?thesis using assms by (simp add: valid_slot_def)
  qed
  show ?thesis
    by (subst find_ready_loop.simps)
      (auto simp: Let_def c next_slot_valid wakeable_def promote_def should_wake_up_def)
qed

text \<open>The number of slots still to examine after the next one, counted round the table.\<close>
lemma dist_zero:
  assumes "valid_slot orig" "valid_slot cur"
  shows "(orig - cur - 1) mod int MAX_PROCS = 0 \<longleftrightarrow> (cur + 1) mod int MAX_PROCS = orig"
proof
  assume "(orig - cur - 1) mod int MAX_PROCS = 0"
  then have "(orig - (cur + 1)) mod int MAX_PROCS = 0" by (simp add: algebra_simps)
  then have "orig mod int MAX_PROCS = (cur + 1) mod int MAX_PROCS"
    by (simp add: mod_eq_dvd_iff dvd_eq_mod_eq_0)
  then show "(cur + 1) mod int MAX_PROCS = orig"
    using assms(1) by (simp add: valid_slot_def)
next
  assume "(cur + 1) mod int MAX_PROCS = orig"
  then have "(orig - (cur + 1)) mod int MAX_PROCS = 0"
    by (metis cancel_comm_monoid_add_class.diff_cancel mod_0 mod_diff_left_eq)
  then show "(orig - cur - 1) mod int MAX_PROCS = 0" by (simp add: algebra_simps)
qed

lemma dist_step:
  assumes "(orig - cur - 1) mod int MAX_PROCS \<noteq> 0"
  shows "(orig - (cur + 1) mod int MAX_PROCS - 1) mod int MAX_PROCS
           = (orig - cur - 1) mod int MAX_PROCS - 1"
proof -
  have "(orig - (cur + 1) mod int MAX_PROCS - 1) mod int MAX_PROCS
          = ((orig - 1) - (cur + 1)) mod int MAX_PROCS"
    by (metis diff_right_commute mod_diff_right_eq)
  also have "\<dots> = ((orig - cur - 1) - 1) mod int MAX_PROCS"
    by (simp add: algebra_simps)
  also have "\<dots> = ((orig - cur - 1) mod int MAX_PROCS - 1) mod int MAX_PROCS"
    by (simp add: mod_diff_left_eq)
  also have "\<dots> = (orig - cur - 1) mod int MAX_PROCS - 1"
  proof -
    have "0 \<le> (orig - cur - 1) mod int MAX_PROCS"
      "(orig - cur - 1) mod int MAX_PROCS < int MAX_PROCS"
      using MAX_PROCS_pos by simp_all
    with assms show ?thesis by (intro mod_pos_pos_trivial) auto
  qed
  finally show ?thesis .
qed

lemma find_ready_loop_result:
  assumes "valid_slot orig"
  shows "valid_slot cur \<Longrightarrow> d = nat ((orig - cur - 1) mod int MAX_PROCS) \<Longrightarrow>
     (\<exists>i. find_ready_loop k orig cur = Some (i, promote i k) \<and> valid_slot i
           \<and> wakeable k (slot k i))
     \<or> (find_ready_loop k orig cur = Some (orig, k)
         \<and> (\<forall>j\<le>d. \<not> wakeable k (slot k ((cur + 1 + int j) mod int MAX_PROCS))))"
proof (induction d arbitrary: cur)
  case 0
  have "0 \<le> (orig - cur - 1) mod int MAX_PROCS"
    using MAX_PROCS_pos by simp
  then have "(orig - cur - 1) mod int MAX_PROCS = 0"
    using "0.prems"(2) by simp
  then have c: "(cur + 1) mod int MAX_PROCS = orig"
    using dist_zero [OF assms "0.prems"(1)] by simp
  show ?case
    using assms c by (auto simp: find_ready_loop_step [OF "0.prems"(1)] Let_def)
next
  case (Suc d)
  let ?c = "(cur + 1) mod int MAX_PROCS"
  have nz: "(orig - cur - 1) mod int MAX_PROCS \<noteq> 0"
    using Suc.prems(2) by auto
  then have ne: "?c \<noteq> orig"
    using dist_zero [OF assms Suc.prems(1)] by simp
  have d: "d = nat ((orig - ?c - 1) mod int MAX_PROCS)"
    using dist_step [OF nz] Suc.prems(2) by simp
  show ?case
  proof (cases "wakeable k (slot k ?c)")
    case True
    then show ?thesis
      by (auto simp: find_ready_loop_step [OF Suc.prems(1)] Let_def next_slot_valid)
  next
    case False
    then have eq: "find_ready_loop k orig cur = find_ready_loop k orig ?c"
      using ne by (simp add: find_ready_loop_step [OF Suc.prems(1)] Let_def)
    from Suc.IH [OF next_slot_valid d]
    show ?thesis
    proof
      assume "\<exists>i. find_ready_loop k orig ?c = Some (i, promote i k) \<and> valid_slot i
                  \<and> wakeable k (slot k i)"
      then show ?thesis by (simp add: eq)
    next
      assume r: "find_ready_loop k orig ?c = Some (orig, k)
         \<and> (\<forall>j\<le>d. \<not> wakeable k (slot k ((?c + 1 + int j) mod int MAX_PROCS)))"
      have "\<not> wakeable k (slot k ((cur + 1 + int j) mod int MAX_PROCS))" if "j \<le> Suc d" for j
      proof (cases j)
        case 0
        then show ?thesis using False by simp
      next
        case (Suc j')
        have "(?c + (1 + int j')) mod int MAX_PROCS
                = ((cur + 1) + (1 + int j')) mod int MAX_PROCS"
          by (rule mod_add_left_eq)
        then have "(?c + 1 + int j') mod int MAX_PROCS = (cur + 1 + int j) mod int MAX_PROCS"
          unfolding Suc by (simp add: add.assoc)
        then show ?thesis using r that Suc by (metis Suc_le_mono)
      qed
      then show ?thesis using r by (simp add: eq)
    qed
  qed
qed

lemma all_slots_scanned:
  assumes "valid_slot orig" "valid_slot i"
  shows "\<exists>j\<le>nat ((orig - orig - 1) mod int MAX_PROCS). (orig + 1 + int j) mod int MAX_PROCS = i"
proof -
  let ?j = "nat ((i - orig - 1) mod int MAX_PROCS)"
  have nn: "0 \<le> (i - orig - 1) mod int MAX_PROCS"
    and lt: "(i - orig - 1) mod int MAX_PROCS < int MAX_PROCS"
    using MAX_PROCS_pos by simp_all
  have "(- 1) mod int MAX_PROCS = int MAX_PROCS - 1"
    using MAX_PROCS_pos by (simp add: zmod_minus1)
  then have "?j \<le> nat ((orig - orig - 1) mod int MAX_PROCS)"
    using lt by simp
  moreover have "(orig + 1 + int ?j) mod int MAX_PROCS = i"
  proof -
    have "(orig + 1 + int ?j) mod int MAX_PROCS
            = ((orig + 1) + (i - orig - 1) mod int MAX_PROCS) mod int MAX_PROCS"
      using nn by simp
    also have "\<dots> = ((orig + 1) + (i - orig - 1)) mod int MAX_PROCS"
      by (rule mod_add_right_eq)
    also have "\<dots> = i"
      using assms(2) by (simp add: valid_slot_def)
    finally show ?thesis .
  qed
  ultimately show ?thesis by blast
qed

lemma find_ready_loop_full:
  assumes "valid_slot orig"
  shows "(\<exists>i. find_ready_loop k orig orig = Some (i, promote i k) \<and> valid_slot i
            \<and> wakeable k (slot k i))
     \<or> (find_ready_loop k orig orig = Some (orig, k)
         \<and> (\<forall>i. valid_slot i \<longrightarrow> \<not> wakeable k (slot k i)))"
  using find_ready_loop_result [OF assms assms refl, of k] all_slots_scanned [OF assms]
  by metis

lemma slot_promote:
  "length (procs (proc_table k)) = MAX_PROCS \<Longrightarrow> valid_slot i \<Longrightarrow> wakeable k (slot k i) \<Longrightarrow>
     state (slot (promote i k) i) = PROC_STATE_READY"
  by (auto simp: promote_def slot_def upd_slot_def valid_slot_def wakeable_def)

section \<open>The claims\<close>

text \<open>
  C1, as corrected. Called with a start index inside the table, \<^verbatim>\<open>find_ready_proc\<close>
  returns a slot whenever some slot is \<^verbatim>\<open>READY\<close> or is \<^verbatim>\<open>SLEEPING\<close> with its wake-up time
  reached; the slot returned met that test, is \<^verbatim>\<open>READY\<close> on return, and \<^verbatim>\<open>curr_proc\<close>
  points to it. When no slot meets the test after the full revolution, the result is null
  if the slot at the start index is \<^verbatim>\<open>SLEEPING\<close>, and it is the slot at the start index,
  untouched, if that slot is \<^verbatim>\<open>RUNNING\<close>: the running process is elected again.
\<close>
theorem find_ready_proc_result:
  assumes "length (procs (proc_table k)) = MAX_PROCS" and "valid_slot start"
  shows "(list_ex (wakeable k) (procs (proc_table k)) \<longrightarrow>
            (\<exists>i k'. find_ready_proc start k = Some (Some i, k') \<and> valid_slot i
               \<and> wakeable k (slot k i) \<and> state (slot k' i) = PROC_STATE_READY
               \<and> curr_proc (proc_table k') = i))
       \<and> (\<not> list_ex (wakeable k) (procs (proc_table k))
            \<and> state (slot k start) = PROC_STATE_SLEEPING \<longrightarrow>
            find_ready_proc start k
              = Some (None, k\<lparr>proc_table := (proc_table k)\<lparr>curr_proc := start\<rparr>\<rparr>))
       \<and> (\<not> list_ex (wakeable k) (procs (proc_table k))
            \<and> state (slot k start) = PROC_STATE_RUNNING \<longrightarrow>
            find_ready_proc start k
              = Some (Some start, k\<lparr>proc_table := (proc_table k)\<lparr>curr_proc := start\<rparr>\<rparr>))"
  using find_ready_loop_full [OF assms(2), of k]
proof
  assume "\<exists>i. find_ready_loop k start start = Some (i, promote i k) \<and> valid_slot i
            \<and> wakeable k (slot k i)"
  then obtain i where i: "find_ready_loop k start start = Some (i, promote i k)"
    "valid_slot i" "wakeable k (slot k i)" by blast
  have ready: "state (slot (promote i k) i) = PROC_STATE_READY"
    using slot_promote [OF assms(1) i(2,3)] .
  then have "find_ready_proc start k
      = Some (Some i, (promote i k)\<lparr>proc_table := (proc_table (promote i k))\<lparr>curr_proc := i\<rparr>\<rparr>)"
    by (simp add: find_ready_proc_def i(1))
  moreover have "state (slot ((promote i k)
        \<lparr>proc_table := (proc_table (promote i k))\<lparr>curr_proc := i\<rparr>\<rparr>) i) = PROC_STATE_READY"
    using ready by simp
  moreover have "list_ex (wakeable k) (procs (proc_table k))"
    using ex_slot_iff [OF assms(1), of "wakeable k"] i(2,3) by blast
  ultimately show ?thesis using i(2,3) by auto
next
  assume n: "find_ready_loop k start start = Some (start, k)
     \<and> (\<forall>i. valid_slot i \<longrightarrow> \<not> wakeable k (slot k i))"
  then have "\<not> list_ex (wakeable k) (procs (proc_table k))"
    using ex_slot_iff [OF assms(1), of "wakeable k"] by blast
  then show ?thesis
    using n by (auto simp: find_ready_proc_def)
qed

theorem find_ready_proc_result_witness:
  "(\<exists>i k'. find_ready_proc 0 two_proc_kernel = Some (Some i, k') \<and> valid_slot i
       \<and> wakeable two_proc_kernel (slot two_proc_kernel i)
       \<and> state (slot k' i) = PROC_STATE_READY \<and> curr_proc (proc_table k') = i)
   \<and> find_ready_proc 0 sleeper_kernel
       = Some (None, sleeper_kernel\<lparr>proc_table := (proc_table sleeper_kernel)\<lparr>curr_proc := 0\<rparr>\<rparr>)
   \<and> find_ready_proc 0 one_proc_kernel
       = Some (Some 0, one_proc_kernel\<lparr>proc_table := (proc_table one_proc_kernel)\<lparr>curr_proc := 0\<rparr>\<rparr>)"
proof -
  have v: "valid_slot 0" by code_simp
  have l2: "length (procs (proc_table two_proc_kernel)) = MAX_PROCS" by code_simp
  have w2: "list_ex (wakeable two_proc_kernel) (procs (proc_table two_proc_kernel))"
    by code_simp
  have ls: "length (procs (proc_table sleeper_kernel)) = MAX_PROCS" by code_simp
  have ws: "\<not> list_ex (wakeable sleeper_kernel) (procs (proc_table sleeper_kernel))
      \<and> state (slot sleeper_kernel 0) = PROC_STATE_SLEEPING"
    by code_simp
  have l1: "length (procs (proc_table one_proc_kernel)) = MAX_PROCS" by code_simp
  have w1: "\<not> list_ex (wakeable one_proc_kernel) (procs (proc_table one_proc_kernel))
      \<and> state (slot one_proc_kernel 0) = PROC_STATE_RUNNING"
    by code_simp
  show ?thesis
    using find_ready_proc_result [OF l2 v] find_ready_proc_result [OF ls v]
      find_ready_proc_result [OF l1 v] w2 ws w1
    by blast
qed

text \<open>
  The claim as it was stated fails where one process runs alone: no slot is \<^verbatim>\<open>READY\<close> or
  \<^verbatim>\<open>SLEEPING\<close>, and the result is the \<^verbatim>\<open>RUNNING\<close> slot 0, not null.
\<close>
theorem find_ready_proc_counterexample:
  "map_option fst (find_ready_proc 0 one_proc_kernel) = Some (Some 0)
   \<and> \<not> list_ex (wakeable one_proc_kernel) (procs (proc_table one_proc_kernel))
   \<and> state (slot one_proc_kernel 0) = PROC_STATE_RUNNING"
  by code_simp

text \<open>
  C9. \<^verbatim>\<open>current_proc\<close> takes the table lock (and does not return while it is taken). It
  returns null exactly when \<^verbatim>\<open>num_procs\<close> is 0, and then the lock is still held on return;
  otherwise it returns the pointer to \<^verbatim>\<open>procs[curr_proc]\<close> with the lock released, which
  leaves the state as it was.
\<close>
theorem current_proc_result:
  "current_proc k =
     (if table_lock (proc_table k) then None
      else if num_procs (proc_table k) = 0
      then Some (None, k\<lparr>proc_table := (proc_table k)\<lparr>table_lock := True\<rparr>\<rparr>)
      else Some (Some (curr_proc (proc_table k)), k))"
  by (simp add: current_proc_def acquire_def release_def)

theorem current_proc_result_witness:
  "current_proc boot_kernel
     = Some (None, boot_kernel\<lparr>proc_table := (proc_table boot_kernel)\<lparr>table_lock := True\<rparr>\<rparr>)
   \<and> current_proc one_proc_kernel = Some (Some 0, one_proc_kernel)"
proof -
  have "\<not> table_lock (proc_table boot_kernel) \<and> num_procs (proc_table boot_kernel) = 0"
    by code_simp
  moreover have "\<not> table_lock (proc_table one_proc_kernel)
      \<and> num_procs (proc_table one_proc_kernel) \<noteq> 0 \<and> curr_proc (proc_table one_proc_kernel) = 0"
    by code_simp
  ultimately show ?thesis
    using current_proc_result [of boot_kernel] current_proc_result [of one_proc_kernel]
    by simp
qed

subsection \<open>What the scheduler and \<^verbatim>\<open>execv\<close> leave in the trap frame\<close>

lemma find_ready_loop_shape:
  assumes "find_ready_loop k orig cur = Some r"
  shows "valid_slot (fst r) \<and>
     (snd r = k \<or> snd r = upd_slot (fst r) (\<lambda>s. s\<lparr>state := PROC_STATE_READY\<rparr>) k)"
proof (rule find_ready_loop.raw_induct
    [where P = "\<lambda>k orig cur r. valid_slot (fst r) \<and>
       (snd r = k \<or> snd r = upd_slot (fst r) (\<lambda>s. s\<lparr>state := PROC_STATE_READY\<rparr>) k)",
     OF _ assms], goal_cases)
  case (1 loop k orig cur r)
  then show ?case
    by (auto simp: Let_def split: if_splits)
qed

lemma find_ready_proc_shape:
  assumes "find_ready_proc c k = Some (r, k')"
  shows "\<exists>i. valid_slot i \<and> (r = None \<or> r = Some i) \<and>
          (k' = k\<lparr>proc_table := (proc_table k)\<lparr>curr_proc := i\<rparr>\<rparr>
           \<or> k' = (upd_slot i (\<lambda>s. s\<lparr>state := PROC_STATE_READY\<rparr>) k)
               \<lparr>proc_table := (proc_table (upd_slot i (\<lambda>s. s\<lparr>state := PROC_STATE_READY\<rparr>) k))
                  \<lparr>curr_proc := i\<rparr>\<rparr>)"
proof -
  from assms obtain i k1 where l: "find_ready_loop k c c = Some (i, k1)"
    and r: "r = None \<or> r = Some i"
    and k': "k' = k1\<lparr>proc_table := (proc_table k1)\<lparr>curr_proc := i\<rparr>\<rparr>"
    by (auto simp: find_ready_proc_def Let_def split: Option.bind_splits if_splits)
  from find_ready_loop_shape [OF l] r k' show ?thesis by auto
qed

lemma trap_frame_find_ready_proc:
  "find_ready_proc c k = Some (r, k') \<Longrightarrow> trap_frame k' = trap_frame k"
  by (drule find_ready_proc_shape) auto

lemma pc_trap_frame_schedule:
  assumes "schedule_user_process k = Some k'"
  shows "pc (trap_frame k') = pc (trap_frame k)"
  using assms unfolding schedule_user_process_def
  by (auto simp: Let_def split: Option.bind_splits if_splits option.splits
      dest!: trap_frame_acquire trap_frame_find_ready_proc)

lemma trap_frame_current_proc:
  "current_proc k = Some (r, k') \<Longrightarrow> trap_frame k' = trap_frame k"
  by (auto simp: current_proc_def Let_def split: Option.bind_splits if_splits
      dest!: trap_frame_acquire)

lemma trap_frame_allocate_page: "allocate_page k = (sp, k') \<Longrightarrow> trap_frame k' = trap_frame k"
  by (auto simp: allocate_page_def split: option.splits)

lemma trap_frame_release_page: "release_page p k = Some k' \<Longrightarrow> trap_frame k' = trap_frame k"
  by (auto simp: release_page_def split: option.splits if_splits)

lemma pc_trap_frame_execv:
  assumes "proc_execv filename argv k = Some (r, k')"
  shows "pc (trap_frame k') = pc (trap_frame k)"
  using assms unfolding proc_execv_def
  by (auto simp: Let_def split: Option.bind_splits if_splits option.splits prod.splits
      dest!: trap_frame_acquire trap_frame_current_proc trap_frame_allocate_page
        trap_frame_release_page)

text \<open>
  C8. \<^verbatim>\<open>copy_context\<close> leaves the \<^verbatim>\<open>pc\<close> of its destination as it was and copies the 32
  registers of its source; so neither \<^verbatim>\<open>schedule_user_process\<close> nor \<^verbatim>\<open>proc_execv\<close>, which
  write the trap frame through \<^verbatim>\<open>copy_context\<close> only, ever changes the \<^verbatim>\<open>pc\<close> held in the
  trap frame.
\<close>
theorem copy_context_keeps_pc:
  "pc (copy_context dst src) = pc dst
   \<and> (wf_frame dst \<and> wf_frame src \<longrightarrow> regs (copy_context dst src) = regs src)
   \<and> (schedule_user_process k = Some k' \<longrightarrow> pc (trap_frame k') = pc (trap_frame k))
   \<and> (proc_execv filename argv k = Some (r, k'') \<longrightarrow> pc (trap_frame k'') = pc (trap_frame k))"
  using pc_trap_frame_schedule [of k k'] pc_trap_frame_execv [of filename argv k r k'']
  by (simp add: regs_copy_context)

theorem copy_context_keeps_pc_witness:
  "(\<exists>k'. schedule_user_process two_proc_kernel = Some k'
        \<and> regs (copy_context zero_frame (proc_context (slot k' 1))) = regs (proc_context (slot k' 1))
        \<and> pc (trap_frame k') = pc (trap_frame two_proc_kernel)
        \<and> state (slot k' 1) = PROC_STATE_RUNNING
        \<and> pc (trap_frame k') \<noteq> pc (proc_context (slot k' 1)))
   \<and> (\<exists>r k''. proc_execv (Some ''shell'') 0 one_proc_kernel = Some (r, k'')
        \<and> pc (trap_frame k'') = pc (trap_frame one_proc_kernel)
        \<and> pc (trap_frame k'') \<noteq> pc (proc_context (slot k'' 0)))"
proof -
  have "map_option (\<lambda>k'. (wf_frame (proc_context (slot k' 1)), state (slot k' 1),
           pc (proc_context (slot k' 1)))) (schedule_user_process two_proc_kernel)
          = Some (True, PROC_STATE_RUNNING, 0x80001040)"
    by code_simp
  then obtain k' where k': "schedule_user_process two_proc_kernel = Some k'"
    "wf_frame (proc_context (slot k' 1))" "state (slot k' 1) = PROC_STATE_RUNNING"
    "pc (proc_context (slot k' 1)) = 0x80001040"
    by auto
  have z: "wf_frame zero_frame" "pc (trap_frame two_proc_kernel) = 0x80001080"
    "pc (trap_frame one_proc_kernel) = 0"
    by code_simp+
  have "map_option (\<lambda>(r, k''). pc (proc_context (slot k'' 0)))
          (proc_execv (Some ''shell'') 0 one_proc_kernel) = Some 0x80001000"
    by code_simp
  then obtain r k'' where k'': "proc_execv (Some ''shell'') 0 one_proc_kernel = Some (r, k'')"
    "pc (proc_context (slot k'' 0)) = 0x80001000"
    by auto
  show ?thesis
    using copy_context_keeps_pc [of zero_frame "proc_context (slot k' 1)" two_proc_kernel k']
      copy_context_keeps_pc [of zero_frame zero_frame one_proc_kernel k' "Some ''shell''" 0 r k'']
      k' k'' z
    by auto
qed

text \<open>
  C2 fails on the code. The only process, in slot 0, has no child and calls \<^verbatim>\<open>wait\<close> at
  time 5: it is marked \<^verbatim>\<open>SLEEPING\<close> with \<^verbatim>\<open>wakeup_time\<close> 0, the scheduler finds
  \<open>0 \<le> now\<close> in \<^verbatim>\<open>should_wake_up\<close>, and \<^verbatim>\<open>wait\<close> returns with the caller \<^verbatim>\<open>RUNNING\<close>
  although no process has called \<^verbatim>\<open>exit\<close>.
\<close>
theorem proc_wait_returns_at_once:
  "map_option (\<lambda>(r, k). (r, state (slot k 0), wakeup_time (slot k 0), mtime k,
       list_ex (\<lambda>s. parent s = Some 0) (procs (proc_table k))))
     (proc_wait one_proc_kernel) = Some (0, PROC_STATE_RUNNING, 0, 5, False)"
  by code_simp

text \<open>
  C3 fails on the code. The process in slot 0 calls \<^verbatim>\<open>sleep(1000)\<close> at time 5 while the
  process in slot 1 is ready: the scheduler switches to slot 1 and marks the outgoing
  slot 0 \<^verbatim>\<open>READY\<close>, so at the next tick, at time 6, slot 0 runs again, long before its
  wake-up time 10000005.
\<close>
theorem proc_sleep_wakes_early:
  "do {
     (r, k) \<leftarrow> proc_sleep 1000 two_proc_kernel;
     k' \<leftarrow> schedule_user_process (k\<lparr>mtime := 6\<rparr>);
     Some (state (slot k 0), wakeup_time (slot k 0), state (slot k' 0), mtime k')
   } = Some (PROC_STATE_READY, 10000005, PROC_STATE_RUNNING, 6)"
  by code_simp


subsection \<open>The pid counter\<close>

lemma alloc_pid_free:
  "\<not> table_lock (proc_table k) \<Longrightarrow>
     alloc_pid k = Some (pid_counter (proc_table k),
       k\<lparr>proc_table := (proc_table k)\<lparr>pid_counter := pid_counter (proc_table k) + 1\<rparr>\<rparr>)"
  by (simp add: alloc_pid_def acquire_def release_def)

lemma alloc_pids_free:
  "\<not> table_lock (proc_table k) \<Longrightarrow>
     alloc_pids n k = Some (map (\<lambda>i. pid_counter (proc_table k) + of_nat i) [0..<n],
       k\<lparr>proc_table := (proc_table k)\<lparr>pid_counter := pid_counter (proc_table k) + of_nat n\<rparr>\<rparr>)"
proof (induction n arbitrary: k)
  case 0
  then show ?case by simp
next
  case (Suc n)
  let ?k = "k\<lparr>proc_table := (proc_table k)\<lparr>pid_counter := pid_counter (proc_table k) + 1\<rparr>\<rparr>"
  have "\<not> table_lock (proc_table ?k)" using Suc.prems by simp
  from Suc.IH [OF this] Suc.prems show ?case
    by (simp add: alloc_pid_free map_upt_Suc add.assoc del: upt_Suc)
qed

lemma unat_counter_plus:
  assumes "unat (c :: uint32_t) + i < 2 ^ 32"
  shows "unat (c + of_nat i) = unat c + i"
proof -
  have i: "i < 2 ^ 32" using assms by simp
  have "unat (of_nat i :: uint32_t) = i mod 2 ^ LENGTH(32)"
    by (rule unat_of_nat)
  then have u: "unat (of_nat i :: uint32_t) = i"
    using i by simp
  then have "unat c + unat (of_nat i :: uint32_t) < 2 ^ LENGTH(32)"
    using assms by simp
  then have "unat (c + of_nat i) = unat c + unat (of_nat i :: uint32_t)"
    by (rule unat_add_lem [THEN iffD1])
  then show ?thesis using u by simp
qed

lemma pids_increasing:
  assumes "unat (c :: uint32_t) + n \<le> 2 ^ 32"
  shows "sorted_wrt (<) (map (\<lambda>i. c + of_nat i) [0..<n])"
proof -
  have "c + of_nat i < c + of_nat j" if "i < j" "j < n" for i j
  proof -
    have "unat c + i < 2 ^ 32" "unat c + j < 2 ^ 32"
      using that assms by linarith+
    then have "unat (c + of_nat i) = unat c + i" "unat (c + of_nat j) = unat c + j"
      by (simp_all add: unat_counter_plus)
    then show ?thesis
      using that(1) by (simp add: word_less_nat_alt)
  qed
  then show ?thesis
    by (simp add: sorted_wrt_iff_nth_less)
qed

text \<open>
  C7, as corrected. \<^verbatim>\<open>init_process_table\<close> sets \<^verbatim>\<open>pid_counter\<close> to 0 before it calls
  \<^verbatim>\<open>init_test_processes\<close>, whatever that routine does. From any state with the table lock
  free, \<open>n\<close> successive calls of \<^verbatim>\<open>alloc_pid\<close> return \<open>c\<close>, \<open>c + 1\<close>, ..., \<open>c + n - 1\<close>
  modulo \<open>2 ^ 32\<close>, where \<open>c\<close> is the value of the counter, and leave the counter at
  \<open>c + n\<close>; these pids are strictly increasing, hence never handed out twice, as long as
  \<open>c + n \<le> 2 ^ 32\<close>. So the first pid handed out in a boot is 0.
\<close>
theorem alloc_pid_sequence:
  "init_process_table init_test_processes k0
     = init_test_processes
         (k0\<lparr>proc_table := (proc_table k0)
              \<lparr>curr_proc := - 1, pid_counter := 0, is_idle := True,
               procs := map (\<lambda>s. s\<lparr>state := PROC_STATE_AVAILABLE\<rparr>) (procs (proc_table k0))\<rparr>\<rparr>)
   \<and> (\<not> table_lock (proc_table k) \<longrightarrow>
        alloc_pids n k
          = Some (map (\<lambda>i. pid_counter (proc_table k) + of_nat i) [0..<n],
                  k\<lparr>proc_table := (proc_table k)
                       \<lparr>pid_counter := pid_counter (proc_table k) + of_nat n\<rparr>\<rparr>)
        \<and> (unat (pid_counter (proc_table k)) + n \<le> 2 ^ 32 \<longrightarrow>
             sorted_wrt (<) (map (\<lambda>i. pid_counter (proc_table k) + of_nat i) [0..<n])))"
proof (intro conjI impI)
  show "init_process_table init_test_processes k0
     = init_test_processes
         (k0\<lparr>proc_table := (proc_table k0)
              \<lparr>curr_proc := - 1, pid_counter := 0, is_idle := True,
               procs := map (\<lambda>s. s\<lparr>state := PROC_STATE_AVAILABLE\<rparr>) (procs (proc_table k0))\<rparr>\<rparr>)"
    by (simp add: init_process_table_def Let_def)
next
  assume "\<not> table_lock (proc_table k)"
  then show "alloc_pids n k
          = Some (map (\<lambda>i. pid_counter (proc_table k) + of_nat i) [0..<n],
                  k\<lparr>proc_table := (proc_table k)
                       \<lparr>pid_counter := pid_counter (proc_table k) + of_nat n\<rparr>\<rparr>)"
    by (rule alloc_pids_free)
next
  assume "unat (pid_counter (proc_table k)) + n \<le> 2 ^ 32"
  then show "sorted_wrt (<) (map (\<lambda>i. pid_counter (proc_table k) + of_nat i) [0..<n])"
    by (rule pids_increasing)
qed

theorem alloc_pid_sequence_witness:
  "pid_counter (proc_table one_proc_kernel) = 1
   \<and> map_option fst (alloc_pids 3 one_proc_kernel) = Some [1, 2, 3]
   \<and> sorted_wrt (<) ([1, 2, 3] :: uint32_t list)
   \<and> map_option (\<lambda>k. pid_counter (proc_table k)) (init_process_table Some wrapping_kernel)
       = Some 0"
proof -
  have l: "\<not> table_lock (proc_table one_proc_kernel)" by code_simp
  have c: "pid_counter (proc_table one_proc_kernel) = 1" by code_simp
  have u: "[0..<3] = [0, 1, 2]" by code_simp
  have n: "unat (1 :: uint32_t) + 3 \<le> 2 ^ 32" by simp
  have "alloc_pids 3 one_proc_kernel
          = Some (map (\<lambda>i. 1 + of_nat i) [0, 1, 2],
                  one_proc_kernel\<lparr>proc_table := (proc_table one_proc_kernel)
                       \<lparr>pid_counter := 1 + of_nat 3\<rparr>\<rparr>)"
    and "sorted_wrt (<) (map (\<lambda>i. 1 + of_nat i) [0, 1, 2] :: uint32_t list)"
    and "init_process_table Some wrapping_kernel
     = Some (wrapping_kernel\<lparr>proc_table := (proc_table wrapping_kernel)
              \<lparr>curr_proc := - 1, pid_counter := 0, is_idle := True,
               procs := map (\<lambda>s. s\<lparr>state := PROC_STATE_AVAILABLE\<rparr>)
                          (procs (proc_table wrapping_kernel))\<rparr>\<rparr>)"
    using alloc_pid_sequence [of Some wrapping_kernel one_proc_kernel 3] l n
    unfolding c u by blast+
  then show ?thesis using c by simp
qed

text \<open>
  The claim as it was stated fails: the first pid handed out is 0, which is therefore not
  reserved, and when the 32-bit counter wraps around, the pid after \<open>2 ^ 32 - 1\<close> is 0
  again.
\<close>
theorem alloc_pid_counterexample:
  "map_option fst (alloc_pid boot_kernel) = Some 0
   \<and> map_option fst (alloc_pids 2 wrapping_kernel) = Some [0xFFFFFFFF, 0]"
  by code_simp

section \<open>Slots, pages and the effect of \<^verbatim>\<open>fork\<close>, \<^verbatim>\<open>execv\<close> and \<^verbatim>\<open>exit\<close>\<close>

lemma upd_slot_table_fields [simp]:
  "table_lock (proc_table (upd_slot p f k)) = table_lock (proc_table k)"
  "curr_proc (proc_table (upd_slot p f k)) = curr_proc (proc_table k)"
  "pid_counter (proc_table (upd_slot p f k)) = pid_counter (proc_table k)"
  "num_procs (proc_table (upd_slot p f k)) = num_procs (proc_table k)"
  "is_idle (proc_table (upd_slot p f k)) = is_idle (proc_table k)"
  "length (procs (proc_table (upd_slot p f k))) = length (procs (proc_table k))"
  by (simp_all add: upd_slot_def)

lemma upd_slot_kernel_fields [simp]:
  "mtime (upd_slot p f k) = mtime k"
  "heap_base (upd_slot p f k) = heap_base k"
  "page_bitmap (upd_slot p f k) = page_bitmap k"
  "memory (upd_slot p f k) = memory k"
  "user_programs (upd_slot p f k) = user_programs k"
  by (simp_all add: upd_slot_def)

lemma slot_upd_slot:
  assumes "valid_slot p" "valid_slot q" "length (procs (proc_table k)) = MAX_PROCS"
  shows "slot (upd_slot p f k) q = (if q = p then f (slot k p) else slot k q)"
  using assms by (auto simp: slot_def upd_slot_def valid_slot_def)

lemma slot_other_updates [simp]:
  "slot (k\<lparr>trap_frame := t\<rparr>) q = slot k q"
  "slot (k\<lparr>page_bitmap := b\<rparr>) q = slot k q"
  "slot (k\<lparr>memory := m\<rparr>) q = slot k q"
  "slot (k\<lparr>mtime := n\<rparr>) q = slot k q"
  "slot (k\<lparr>proc_table := (proc_table k)\<lparr>table_lock := l\<rparr>\<rparr>) q = slot k q"
  "slot (k\<lparr>proc_table := (proc_table k)\<lparr>pid_counter := c\<rparr>\<rparr>) q = slot k q"
  "slot (k\<lparr>proc_table := (proc_table k)\<lparr>num_procs := n'\<rparr>\<rparr>) q = slot k q"
  "slot (k\<lparr>proc_table := (proc_table k)\<lparr>is_idle := i\<rparr>\<rparr>) q = slot k q"
  by (simp_all add: slot_def)

lemma upd_slot_commute_updates [simp]:
  "upd_slot p f (k\<lparr>trap_frame := t\<rparr>) = (upd_slot p f k)\<lparr>trap_frame := t\<rparr>"
  "upd_slot p f (k\<lparr>page_bitmap := b\<rparr>) = (upd_slot p f k)\<lparr>page_bitmap := b\<rparr>"
  "upd_slot p f (k\<lparr>memory := m\<rparr>) = (upd_slot p f k)\<lparr>memory := m\<rparr>"
  by (simp_all add: upd_slot_def)

lemma alloc_process_loop_find:
  "alloc_process_loop js k =
     (case find (\<lambda>i. int i \<noteq> curr_proc (proc_table k)
                    \<and> state (slot k (int i)) = PROC_STATE_AVAILABLE) js of
        None \<Rightarrow> Some (None, release Table_lock k)
      | Some i \<Rightarrow> do {
          k \<leftarrow> acquire (Proc_lock (int i)) k;
          let k = upd_slot (int i) (\<lambda>s. s\<lparr>state := PROC_STATE_READY\<rparr>) k;
          let k = k\<lparr>proc_table := (proc_table k)\<lparr>num_procs := num_procs (proc_table k) + 1\<rparr>\<rparr>;
          let k = release Table_lock k;
          Some (Some (int i), k)
        })"
  by (induction js) (simp_all add: Let_def)

lemma find_upt_bound: "find P [0..<n] = Some i \<Longrightarrow> i < n"
  by (auto simp: find_Some_iff)


subsection \<open>The page allocator\<close>

lemma PAGE_SIZE_pos: "0 < PAGE_SIZE"
  by (simp add: PAGE_SIZE_def)

lemma page_offset:
  assumes "wf_pages k" "i < length (page_bitmap k)"
  shows "unat (of_nat (i * PAGE_SIZE) :: regsize_t) = i * PAGE_SIZE"
proof -
  have "i * PAGE_SIZE < length (page_bitmap k) * PAGE_SIZE"
    using assms(2) PAGE_SIZE_pos by (rule mult_less_mono1)
  moreover have "unat (heap_base k) + length (page_bitmap k) * PAGE_SIZE \<le> 2 ^ 64"
    using assms(1) unfolding wf_pages_def by blast
  ultimately have "i * PAGE_SIZE < 2 ^ 64"
    by linarith
  moreover have "unat (of_nat (i * PAGE_SIZE) :: regsize_t) = (i * PAGE_SIZE) mod 2 ^ LENGTH(64)"
    by (rule unat_of_nat)
  ultimately show ?thesis by simp
qed

lemma page_number_address:
  assumes "wf_pages k" "i < length (page_bitmap k)"
  shows "page_number k (page_address k i) = Some i"
  using page_offset [OF assms] assms(2) PAGE_SIZE_pos
  by (simp add: page_number_def page_address_def)

lemma page_address_not_null:
  assumes "wf_pages k" "i < length (page_bitmap k)"
  shows "page_address k i \<noteq> 0"
proof
  assume z: "page_address k i = 0"
  have "i * PAGE_SIZE < length (page_bitmap k) * PAGE_SIZE"
    using assms(2) PAGE_SIZE_pos by (rule mult_less_mono1)
  moreover have "unat (heap_base k) + length (page_bitmap k) * PAGE_SIZE \<le> 2 ^ 64"
    using assms(1) unfolding wf_pages_def by blast
  ultimately have "unat (heap_base k) + i * PAGE_SIZE < 2 ^ 64"
    by linarith
  then have "unat (heap_base k) + unat (of_nat (i * PAGE_SIZE) :: regsize_t) < 2 ^ LENGTH(64)"
    unfolding page_offset [OF assms] by simp
  then have "unat (heap_base k + of_nat (i * PAGE_SIZE))
      = unat (heap_base k) + unat (of_nat (i * PAGE_SIZE) :: regsize_t)"
    by (rule unat_add_lem [THEN iffD1])
  moreover have "unat (heap_base k + of_nat (i * PAGE_SIZE)) = 0"
    using z unfolding page_address_def by simp
  ultimately have "unat (heap_base k) = 0"
    by linarith
  then show False
    using assms(1) by (simp add: wf_pages_def unat_eq_0)
qed

lemma allocate_page_found:
  assumes "find (\<lambda>i. \<not> page_bitmap k ! i) [0..<length (page_bitmap k)] = Some i"
  shows "allocate_page k = (page_address k i, k\<lparr>page_bitmap := (page_bitmap k)[i := True]\<rparr>)"
    and "i < length (page_bitmap k)" and "\<not> page_bitmap k ! i"
proof -
  show "allocate_page k = (page_address k i, k\<lparr>page_bitmap := (page_bitmap k)[i := True]\<rparr>)"
    by (simp add: allocate_page_def assms)
  show "i < length (page_bitmap k)" "\<not> page_bitmap k ! i"
    using assms by (auto simp: find_Some_iff)
qed

lemma allocate_page_none:
  assumes "find (\<lambda>i. \<not> page_bitmap k ! i) [0..<length (page_bitmap k)] = None"
  shows "allocate_page k = (0, k)"
  using assms by (simp add: allocate_page_def)

lemma release_allocated:
  assumes "wf_pages k" "i < length (page_bitmap k)" "\<not> page_bitmap k ! i"
    and "heap_base k' = heap_base k" "page_bitmap k' = (page_bitmap k)[i := True]"
  shows "release_page (page_address k i) k' = Some (k'\<lparr>page_bitmap := page_bitmap k\<rparr>)"
proof -
  have "page_number k' (page_address k i) = Some i"
    using page_number_address [OF assms(1,2)] assms(4,5)
    by (simp add: page_number_def page_address_def)
  moreover have "(page_bitmap k)[i := True, i := False] = page_bitmap k"
    using assms(2,3) by (simp add: list_update_same_conv)
  ultimately show ?thesis
    using assms(2,5) by (simp add: release_page_def)
qed


lemma map_state_upd_slot:
  assumes "\<And>s. state (f s) = state s"
  shows "map state (procs (proc_table (upd_slot p f k))) = map state (procs (proc_table k))"
proof (cases "nat p < length (procs (proc_table k))")
  case True
  then have "(map state (procs (proc_table k)))[nat p := state (procs (proc_table k) ! nat p)]
      = map state (procs (proc_table k))"
    by (simp add: list_update_same_conv)
  then show ?thesis by (simp add: upd_slot_def map_update assms)
next
  case False
  then show ?thesis by (simp add: upd_slot_def list_update_beyond not_less)
qed

lemma state_slot_nth:
  assumes "i < length (procs (proc_table k))"
  shows "state (slot k (int i)) = map state (procs (proc_table k)) ! i"
  using assms by (simp add: slot_def)

lemma find_free_slot_cong:
  assumes "map state (procs (proc_table k')) = map state (procs (proc_table k))"
    and "length (procs (proc_table k)) = MAX_PROCS"
    and "curr_proc (proc_table k') = curr_proc (proc_table k)"
  shows "find (\<lambda>i. int i \<noteq> curr_proc (proc_table k')
                   \<and> state (slot k' (int i)) = PROC_STATE_AVAILABLE) [0..<MAX_PROCS]
       = find (\<lambda>i. int i \<noteq> curr_proc (proc_table k)
                   \<and> state (slot k (int i)) = PROC_STATE_AVAILABLE) [0..<MAX_PROCS]"
proof (rule find_cong [OF refl])
  fix i assume "i \<in> set [0..<MAX_PROCS]"
  then have i: "i < length (procs (proc_table k))" using assms(2) by simp
  moreover have "length (procs (proc_table k')) = length (procs (proc_table k))"
    using assms(1) by (metis length_map)
  ultimately have "state (slot k' (int i)) = state (slot k (int i))"
    using assms(1) by (simp add: state_slot_nth)
  then show "(int i \<noteq> curr_proc (proc_table k')
               \<and> state (slot k' (int i)) = PROC_STATE_AVAILABLE)
           = (int i \<noteq> curr_proc (proc_table k)
               \<and> state (slot k (int i)) = PROC_STATE_AVAILABLE)"
    using assms(3) by simp
qed

lemma current_proc_free:
  "\<not> table_lock (proc_table k) \<Longrightarrow> num_procs (proc_table k) \<noteq> 0 \<Longrightarrow>
     current_proc k = Some (Some (curr_proc (proc_table k)), k)"
  by (simp add: current_proc_def acquire_def release_def)

lemma current_proc_none:
  "\<not> table_lock (proc_table k) \<Longrightarrow> num_procs (proc_table k) = 0 \<Longrightarrow>
     current_proc k = Some (None, k\<lparr>proc_table := (proc_table k)\<lparr>table_lock := True\<rparr>\<rparr>)"
  by (simp add: current_proc_def acquire_def release_def)

lemma alloc_process_full:
  assumes "\<not> table_lock (proc_table k)"
    and "find (\<lambda>i. int i \<noteq> curr_proc (proc_table k)
                   \<and> state (slot k (int i)) = PROC_STATE_AVAILABLE) [0..<MAX_PROCS] = None"
  shows "alloc_process k = Some (None, k)"
proof -
  let ?k = "k\<lparr>proc_table := (proc_table k)\<lparr>table_lock := True\<rparr>\<rparr>"
  have "find (\<lambda>i. int i \<noteq> curr_proc (proc_table ?k)
                   \<and> state (slot ?k (int i)) = PROC_STATE_AVAILABLE) [0..<MAX_PROCS] = None"
    using assms(2) by simp
  then have "alloc_process_loop [0..<MAX_PROCS] ?k = Some (None, release Table_lock ?k)"
    by (simp add: alloc_process_loop_find)
  moreover have "release Table_lock ?k = k"
    using assms(1) by (simp add: release_def)
  ultimately show ?thesis
    using assms(1) by (simp add: alloc_process_def acquire_def)
qed


lemma map_state_release [simp]:
  "map state (procs (proc_table (release l k))) = map state (procs (proc_table k))"
  by (cases l) (simp_all add: release_def map_state_upd_slot)

text \<open>
  C6. \<^verbatim>\<open>fork\<close> returns -1 and changes nothing when no page frame is free. When a frame is
  free but no slot other than the caller's is available, or when \<^verbatim>\<open>current_proc\<close> is null, it
  returns -1 after giving the frame back: the bitmap, hence \<^verbatim>\<open>freeram\<close>, is as before the
  call, no slot changes state, and \<^verbatim>\<open>num_procs\<close> and \<^verbatim>\<open>pid_counter\<close> are unchanged.
\<close>
theorem proc_fork_failure:
  "(find (\<lambda>i. \<not> page_bitmap k ! i) [0..<length (page_bitmap k)] = None \<longrightarrow>
      proc_fork k = Some (- 1, k))
   \<and> (wf_pages k \<and> length (procs (proc_table k)) = MAX_PROCS
        \<and> find (\<lambda>i. \<not> page_bitmap k ! i) [0..<length (page_bitmap k)] \<noteq> None
        \<and> \<not> table_lock (proc_table k) \<and> num_procs (proc_table k) \<noteq> 0
        \<and> valid_slot (curr_proc (proc_table k))
        \<and> \<not> lock (slot k (curr_proc (proc_table k)))
        \<and> find (\<lambda>i. int i \<noteq> curr_proc (proc_table k)
                     \<and> state (slot k (int i)) = PROC_STATE_AVAILABLE) [0..<MAX_PROCS] = None
      \<longrightarrow> (\<exists>k'. proc_fork k = Some (- 1, k')
             \<and> page_bitmap k' = page_bitmap k \<and> freeram k' = freeram k
             \<and> map state (procs (proc_table k')) = map state (procs (proc_table k))
             \<and> num_procs (proc_table k') = num_procs (proc_table k)
             \<and> pid_counter (proc_table k') = pid_counter (proc_table k)))
   \<and> (wf_pages k
        \<and> find (\<lambda>i. \<not> page_bitmap k ! i) [0..<length (page_bitmap k)] \<noteq> None
        \<and> \<not> table_lock (proc_table k) \<and> num_procs (proc_table k) = 0
      \<longrightarrow> (\<exists>k'. proc_fork k = Some (- 1, k')
             \<and> page_bitmap k' = page_bitmap k \<and> freeram k' = freeram k
             \<and> procs (proc_table k') = procs (proc_table k)
             \<and> num_procs (proc_table k') = num_procs (proc_table k)
             \<and> pid_counter (proc_table k') = pid_counter (proc_table k)))"
proof (intro conjI impI)
  assume "find (\<lambda>i. \<not> page_bitmap k ! i) [0..<length (page_bitmap k)] = None"
  then show "proc_fork k = Some (- 1, k)"
    by (simp add: proc_fork_def allocate_page_none)
next
  assume a: "wf_pages k \<and> length (procs (proc_table k)) = MAX_PROCS
        \<and> find (\<lambda>i. \<not> page_bitmap k ! i) [0..<length (page_bitmap k)] \<noteq> None
        \<and> \<not> table_lock (proc_table k) \<and> num_procs (proc_table k) \<noteq> 0
        \<and> valid_slot (curr_proc (proc_table k))
        \<and> \<not> lock (slot k (curr_proc (proc_table k)))
        \<and> find (\<lambda>i. int i \<noteq> curr_proc (proc_table k)
                     \<and> state (slot k (int i)) = PROC_STATE_AVAILABLE) [0..<MAX_PROCS] = None"
  then obtain pg where pg: "find (\<lambda>i. \<not> page_bitmap k ! i) [0..<length (page_bitmap k)] = Some pg"
    by auto
  let ?par = "curr_proc (proc_table k)"
  let ?sp = "page_address k pg"
  let ?k1 = "k\<lparr>page_bitmap := (page_bitmap k)[pg := True]\<rparr>"
  let ?k2 = "upd_slot ?par (\<lambda>s. s\<lparr>lock := True\<rparr>) ?k1"
  let ?k3 = "upd_slot ?par
      (\<lambda>s. s\<lparr>proc_context := (proc_context s)\<lparr>pc := pc (trap_frame k)\<rparr>\<rparr>) ?k2"
  let ?k4 = "upd_slot ?par
      (\<lambda>s. s\<lparr>proc_context := copy_context (proc_context s) (trap_frame k)\<rparr>) ?k3"
  let ?k5 = "?k4\<lparr>page_bitmap := page_bitmap k\<rparr>"
  note alloc = allocate_page_found [OF pg]
  have sp: "?sp \<noteq> 0"
    using page_address_not_null a alloc(2) by blast
  have cur: "current_proc ?k1 = Some (Some ?par, ?k1)"
    using a by (simp add: current_proc_free)
  have acq: "acquire (Proc_lock ?par) ?k1 = Some ?k2"
    using a by (simp add: acquire_def)
  have st4: "map state (procs (proc_table ?k4)) = map state (procs (proc_table k))"
    by (simp add: map_state_upd_slot)
  have "find (\<lambda>i. int i \<noteq> curr_proc (proc_table ?k4)
                   \<and> state (slot ?k4 (int i)) = PROC_STATE_AVAILABLE) [0..<MAX_PROCS] = None"
    using find_free_slot_cong [OF st4] a by simp
  then have ap: "alloc_process ?k4 = Some (None, ?k4)"
    using a by (intro alloc_process_full) simp_all
  have rel: "release_page ?sp ?k4 = Some ?k5"
    using release_allocated [of k pg ?k4] a alloc by simp
  have "proc_fork k = Some (- 1, release (Proc_lock ?par) ?k5)"
    unfolding proc_fork_def
    by (simp add: alloc(1) sp cur acq ap rel Let_def del: upd_slot_commute_updates)
  moreover have "map state (procs (proc_table (release (Proc_lock ?par) ?k5)))
      = map state (procs (proc_table k))"
    using st4 by simp
  ultimately show "\<exists>k'. proc_fork k = Some (- 1, k')
             \<and> page_bitmap k' = page_bitmap k \<and> freeram k' = freeram k
             \<and> map state (procs (proc_table k')) = map state (procs (proc_table k))
             \<and> num_procs (proc_table k') = num_procs (proc_table k)
             \<and> pid_counter (proc_table k') = pid_counter (proc_table k)"
    by (simp add: release_def freeram_def)
next
  assume a: "wf_pages k
        \<and> find (\<lambda>i. \<not> page_bitmap k ! i) [0..<length (page_bitmap k)] \<noteq> None
        \<and> \<not> table_lock (proc_table k) \<and> num_procs (proc_table k) = 0"
  then obtain pg where pg: "find (\<lambda>i. \<not> page_bitmap k ! i) [0..<length (page_bitmap k)] = Some pg"
    by auto
  let ?sp = "page_address k pg"
  let ?k1 = "k\<lparr>page_bitmap := (page_bitmap k)[pg := True]\<rparr>"
  let ?k2 = "?k1\<lparr>proc_table := (proc_table ?k1)\<lparr>table_lock := True\<rparr>\<rparr>"
  note alloc = allocate_page_found [OF pg]
  have sp: "?sp \<noteq> 0"
    using page_address_not_null a alloc(2) by blast
  show "\<exists>k'. proc_fork k = Some (- 1, k')
             \<and> page_bitmap k' = page_bitmap k \<and> freeram k' = freeram k
             \<and> procs (proc_table k') = procs (proc_table k)
             \<and> num_procs (proc_table k') = num_procs (proc_table k)
             \<and> pid_counter (proc_table k') = pid_counter (proc_table k)"
    unfolding proc_fork_def using a alloc(2,3)
    by (simp add: alloc(1) sp current_proc_none release_allocated Let_def freeram_def)
qed


theorem proc_fork_failure_witness:
  "proc_fork full_memory_kernel = Some (- 1, full_memory_kernel)
   \<and> (\<exists>k'. proc_fork full_table_kernel = Some (- 1, k')
         \<and> page_bitmap k' = page_bitmap full_table_kernel
         \<and> freeram k' = freeram full_table_kernel
         \<and> map state (procs (proc_table k')) = map state (procs (proc_table full_table_kernel))
         \<and> num_procs (proc_table k') = num_procs (proc_table full_table_kernel)
         \<and> pid_counter (proc_table k') = pid_counter (proc_table full_table_kernel))
   \<and> (\<exists>k'. proc_fork boot_kernel = Some (- 1, k')
         \<and> page_bitmap k' = page_bitmap boot_kernel \<and> freeram k' = freeram boot_kernel
         \<and> procs (proc_table k') = procs (proc_table boot_kernel)
         \<and> num_procs (proc_table k') = num_procs (proc_table boot_kernel)
         \<and> pid_counter (proc_table k') = pid_counter (proc_table boot_kernel))"
proof -
  have m: "find (\<lambda>i. \<not> page_bitmap full_memory_kernel ! i)
      [0..<length (page_bitmap full_memory_kernel)] = None"
    by code_simp
  have wt: "wf_pages full_table_kernel"
    by (simp add: wf_pages_def full_table_kernel_def one_proc_kernel_def boot_kernel_def
        PAGE_SIZE_def)
  have t: "length (procs (proc_table full_table_kernel)) = MAX_PROCS
      \<and> find (\<lambda>i. \<not> page_bitmap full_table_kernel ! i)
           [0..<length (page_bitmap full_table_kernel)] \<noteq> None
      \<and> \<not> table_lock (proc_table full_table_kernel)
      \<and> num_procs (proc_table full_table_kernel) \<noteq> 0
      \<and> valid_slot (curr_proc (proc_table full_table_kernel))
      \<and> \<not> lock (slot full_table_kernel (curr_proc (proc_table full_table_kernel)))
      \<and> find (\<lambda>i. int i \<noteq> curr_proc (proc_table full_table_kernel)
                   \<and> state (slot full_table_kernel (int i)) = PROC_STATE_AVAILABLE)
           [0..<MAX_PROCS] = None"
    by code_simp
  have wb: "wf_pages boot_kernel"
    by (simp add: wf_pages_def boot_kernel_def PAGE_SIZE_def)
  have b: "find (\<lambda>i. \<not> page_bitmap boot_kernel ! i) [0..<length (page_bitmap boot_kernel)] \<noteq> None
      \<and> \<not> table_lock (proc_table boot_kernel) \<and> num_procs (proc_table boot_kernel) = 0"
    by code_simp
  show ?thesis
    using proc_fork_failure [of full_memory_kernel] proc_fork_failure [of full_table_kernel]
      proc_fork_failure [of boot_kernel] m wt t wb b
    by blast
qed

subsection \<open>\<^verbatim>\<open>exit\<close>\<close>

lemma page_number_upd_slot [simp]: "page_number (upd_slot p f k) a = page_number k a"
  by (simp add: page_number_def)

lemma slot_proc_table_update: "slot (k\<lparr>proc_table := t\<rparr>) q = procs t ! nat q"
  by (simp add: slot_def)

lemma nth_procs_slot: "procs (proc_table k) ! nat q = slot k q"
  by (simp add: slot_def)

lemma release_page_valid:
  "page_number k a = Some i \<Longrightarrow> page_bitmap k ! i \<Longrightarrow>
     release_page a k = Some (k\<lparr>page_bitmap := (page_bitmap k)[i := False]\<rparr>)"
  by (simp add: release_page_def)

text \<open>
  C10. A process whose \<^verbatim>\<open>parent\<close> pointer names another slot calls \<^verbatim>\<open>exit\<close>. Before the
  scheduler runs, the page of the caller is released, its slot is \<^verbatim>\<open>AVAILABLE\<close>, the slot
  of the parent is \<^verbatim>\<open>READY\<close> whatever state it was in (nothing is assumed about it),
  \<^verbatim>\<open>num_procs\<close> is one less and every lock is free again; the result of \<^verbatim>\<open>exit\<close> is that
  of the scheduler on exactly this state. With a null \<^verbatim>\<open>parent\<close> pointer the call
  dereferences the null pointer and has no defined result.
\<close>
theorem proc_exit_wakes_parent:
  "(length (procs (proc_table k)) = MAX_PROCS
      \<and> \<not> table_lock (proc_table k) \<and> num_procs (proc_table k) \<noteq> 0
      \<and> curr_proc (proc_table k) = p \<and> valid_slot p \<and> \<not> lock (slot k p)
      \<and> page_number k (stack_page (slot k p)) = Some i \<and> page_bitmap k ! i
      \<and> parent (slot k p) = Some q \<and> valid_slot q \<and> q \<noteq> p \<and> \<not> lock (slot k q)
    \<longrightarrow> proc_exit k = schedule_user_process
          (k\<lparr>page_bitmap := (page_bitmap k)[i := False],
             proc_table := (proc_table k)
               \<lparr>table_lock := False,
                procs := (procs (proc_table k))
                  [nat p := (slot k p)\<lparr>lock := False, state := PROC_STATE_AVAILABLE\<rparr>,
                   nat q := (slot k q)\<lparr>lock := False, state := PROC_STATE_READY\<rparr>],
                num_procs := num_procs (proc_table k) - 1\<rparr>\<rparr>))
   \<and> (length (procs (proc_table k)) = MAX_PROCS
      \<and> \<not> table_lock (proc_table k) \<and> num_procs (proc_table k) \<noteq> 0
      \<and> curr_proc (proc_table k) = p \<and> valid_slot p \<and> \<not> lock (slot k p)
      \<and> page_number k (stack_page (slot k p)) = Some i \<and> page_bitmap k ! i
      \<and> parent (slot k p) = None
    \<longrightarrow> proc_exit k = None)"
proof (intro conjI impI)
  assume a: "length (procs (proc_table k)) = MAX_PROCS
      \<and> \<not> table_lock (proc_table k) \<and> num_procs (proc_table k) \<noteq> 0
      \<and> curr_proc (proc_table k) = p \<and> valid_slot p \<and> \<not> lock (slot k p)
      \<and> page_number k (stack_page (slot k p)) = Some i \<and> page_bitmap k ! i
      \<and> parent (slot k p) = Some q \<and> valid_slot q \<and> q \<noteq> p \<and> \<not> lock (slot k q)"
  then have n: "nat p < length (procs (proc_table k))" "nat q < length (procs (proc_table k))"
    "nat q \<noteq> nat p"
    by (auto simp: valid_slot_def)
  show "proc_exit k = schedule_user_process
          (k\<lparr>page_bitmap := (page_bitmap k)[i := False],
             proc_table := (proc_table k)
               \<lparr>table_lock := False,
                procs := (procs (proc_table k))
                  [nat p := (slot k p)\<lparr>lock := False, state := PROC_STATE_AVAILABLE\<rparr>,
                   nat q := (slot k q)\<lparr>lock := False, state := PROC_STATE_READY\<rparr>],
                num_procs := num_procs (proc_table k) - 1\<rparr>\<rparr>)"
    unfolding proc_exit_def using a
    apply (simp add: current_proc_free acquire_def release_def release_page_valid
        slot_upd_slot Let_def)
    apply (rule arg_cong [where f = schedule_user_process])
    using n
    apply (simp add: upd_slot_def slot_def list_eq_iff_nth_eq nth_list_update)
    done
next
  assume a: "length (procs (proc_table k)) = MAX_PROCS
      \<and> \<not> table_lock (proc_table k) \<and> num_procs (proc_table k) \<noteq> 0
      \<and> curr_proc (proc_table k) = p \<and> valid_slot p \<and> \<not> lock (slot k p)
      \<and> page_number k (stack_page (slot k p)) = Some i \<and> page_bitmap k ! i
      \<and> parent (slot k p) = None"
  show "proc_exit k = None"
    unfolding proc_exit_def using a
    by (simp add: current_proc_free acquire_def release_def release_page_valid
        slot_upd_slot Let_def)
qed


theorem proc_exit_wakes_parent_witness:
  "map_option (\<lambda>k'. (state (slot k' 0), state (slot k' 1), num_procs (proc_table k'),
        page_bitmap k', mtime k' < wakeup_time (slot k' 0)))
     (proc_exit child_running_kernel)
     = Some (PROC_STATE_RUNNING, PROC_STATE_AVAILABLE, 1, [True, False, False, False], True)
   \<and> state (slot child_running_kernel 0) = PROC_STATE_SLEEPING
   \<and> proc_exit one_proc_kernel = None"
proof -
  have c: "length (procs (proc_table child_running_kernel)) = MAX_PROCS
      \<and> \<not> table_lock (proc_table child_running_kernel)
      \<and> num_procs (proc_table child_running_kernel) \<noteq> 0
      \<and> curr_proc (proc_table child_running_kernel) = 1 \<and> valid_slot 1
      \<and> \<not> lock (slot child_running_kernel 1)
      \<and> page_number child_running_kernel (stack_page (slot child_running_kernel 1)) = Some 1
      \<and> page_bitmap child_running_kernel ! 1
      \<and> parent (slot child_running_kernel 1) = Some 0 \<and> valid_slot 0 \<and> (0::int) \<noteq> 1
      \<and> \<not> lock (slot child_running_kernel 0)"
    by code_simp
  have e: "proc_exit child_running_kernel = schedule_user_process
          (child_running_kernel\<lparr>page_bitmap := (page_bitmap child_running_kernel)[1 := False],
             proc_table := (proc_table child_running_kernel)
               \<lparr>table_lock := False,
                procs := (procs (proc_table child_running_kernel))
                  [nat 1 := (slot child_running_kernel 1)
                       \<lparr>lock := False, state := PROC_STATE_AVAILABLE\<rparr>,
                   nat 0 := (slot child_running_kernel 0)
                       \<lparr>lock := False, state := PROC_STATE_READY\<rparr>],
                num_procs := num_procs (proc_table child_running_kernel) - 1\<rparr>\<rparr>)"
    using proc_exit_wakes_parent [of child_running_kernel 1 1 0] c by blast
  have s: "map_option (\<lambda>k'. (state (slot k' 0), state (slot k' 1), num_procs (proc_table k'),
        page_bitmap k', mtime k' < wakeup_time (slot k' 0)))
     (schedule_user_process
          (child_running_kernel\<lparr>page_bitmap := (page_bitmap child_running_kernel)[1 := False],
             proc_table := (proc_table child_running_kernel)
               \<lparr>table_lock := False,
                procs := (procs (proc_table child_running_kernel))
                  [nat 1 := (slot child_running_kernel 1)
                       \<lparr>lock := False, state := PROC_STATE_AVAILABLE\<rparr>,
                   nat 0 := (slot child_running_kernel 0)
                       \<lparr>lock := False, state := PROC_STATE_READY\<rparr>],
                num_procs := num_procs (proc_table child_running_kernel) - 1\<rparr>\<rparr>))
     = Some (PROC_STATE_RUNNING, PROC_STATE_AVAILABLE, 1, [True, False, False, False], True)"
    by code_simp
  have v: "state (slot child_running_kernel 0) = PROC_STATE_SLEEPING"
    by code_simp
  have o: "length (procs (proc_table one_proc_kernel)) = MAX_PROCS
      \<and> \<not> table_lock (proc_table one_proc_kernel)
      \<and> num_procs (proc_table one_proc_kernel) \<noteq> 0
      \<and> curr_proc (proc_table one_proc_kernel) = 0 \<and> valid_slot 0
      \<and> \<not> lock (slot one_proc_kernel 0)
      \<and> page_number one_proc_kernel (stack_page (slot one_proc_kernel 0)) = Some 0
      \<and> page_bitmap one_proc_kernel ! 0
      \<and> parent (slot one_proc_kernel 0) = None"
    by code_simp
  have n: "proc_exit one_proc_kernel = None"
    using proc_exit_wakes_parent [of one_proc_kernel 0 0] o by blast
  show ?thesis
    unfolding e using s v n by blast
qed

subsection \<open>\<^verbatim>\<open>execv\<close>\<close>

lemma page_number_bitmap_update:
  "length b = length (page_bitmap k) \<Longrightarrow> page_number (k\<lparr>page_bitmap := b\<rparr>) a = page_number k a"
  by (simp add: page_number_def)

lemma proc_execv_success:
  assumes "find_user_program filename k = Some program"
    and "wf_pages k"
    and "find (\<lambda>i. \<not> page_bitmap k ! i) [0..<length (page_bitmap k)] = Some pg"
    and "length (procs (proc_table k)) = MAX_PROCS"
    and "\<not> table_lock (proc_table k)" "num_procs (proc_table k) \<noteq> 0"
    and "curr_proc (proc_table k) = p" "valid_slot p" "\<not> lock (slot k p)"
    and "page_number k (stack_page (slot k p)) = Some i" "page_bitmap k ! i"
  shows "proc_execv (Some filename) argv k = Some (0,
     (upd_slot p (\<lambda>s. s\<lparr>name := program_name program, stack_page := page_address k pg,
          proc_context := (proc_context s)
            \<lparr>pc := entry_point program,
             regs := (regs (proc_context s))
               [REG_RA := entry_point program,
                REG_SP := page_address k pg + of_nat PAGE_SIZE,
                REG_FP := page_address k pg + of_nat PAGE_SIZE,
                REG_A0 := 7, REG_A1 := argv]\<rparr>\<rparr>) k)
      \<lparr>page_bitmap := (page_bitmap k)[pg := True, i := False],
       trap_frame := copy_context (trap_frame k)
          ((proc_context (slot k p))
            \<lparr>pc := entry_point program,
             regs := (regs (proc_context (slot k p)))
               [REG_RA := entry_point program,
                REG_SP := page_address k pg + of_nat PAGE_SIZE,
                REG_FP := page_address k pg + of_nat PAGE_SIZE,
                REG_A0 := 7, REG_A1 := argv]\<rparr>)\<rparr>)"
proof -
  note alloc = allocate_page_found [OF assms(3)]
  have sp: "page_address k pg \<noteq> 0"
    using page_address_not_null assms(2) alloc(2) by blast
  have n: "nat p < length (procs (proc_table k))"
    using assms(4,8) by (auto simp: valid_slot_def)
  have ipg: "i \<noteq> pg" using alloc(3) assms(11) by auto
  have bit: "(page_bitmap k)[pg := True] ! i"
    using assms(11) ipg by (simp add: nth_list_update)
  show ?thesis
    unfolding proc_execv_def using assms(1,4-10) bit
    apply (simp add: alloc(1) sp current_proc_free acquire_def release_def
        release_page_valid page_number_bitmap_update slot_upd_slot Let_def)
    using n
    apply (simp add: upd_slot_def slot_def kernel.equality proc_table_t.equality
        list_eq_iff_nth_eq nth_list_update)
    done
qed


text \<open>
  C4. A successful \<^verbatim>\<open>execv\<close>: the caller's saved \<^verbatim>\<open>pc\<close> and \<^verbatim>\<open>ra\<close> are the entry point of the
  program, \<^verbatim>\<open>sp\<close> and \<^verbatim>\<open>fp\<close> the top of the frame just allocated, \<^verbatim>\<open>a1\<close> is \<^verbatim>\<open>argv\<close>, the
  old stack page is released and \<^verbatim>\<open>stack_page\<close> is the new frame. But \<^verbatim>\<open>a0\<close> is the
  constant 7, in the saved context and in the trap frame, for every \<^verbatim>\<open>argv\<close> and whatever
  the memory holds: it is not the number of entries of the argument vector.
\<close>
theorem proc_execv_a0_is_7:
  assumes "find_user_program filename k = Some program"
    and "wf_pages k"
    and "find (\<lambda>i. \<not> page_bitmap k ! i) [0..<length (page_bitmap k)] = Some pg"
    and "length (procs (proc_table k)) = MAX_PROCS"
    and "\<not> table_lock (proc_table k)" "num_procs (proc_table k) \<noteq> 0"
    and "curr_proc (proc_table k) = p" "valid_slot p" "\<not> lock (slot k p)"
    and "page_number k (stack_page (slot k p)) = Some i" "page_bitmap k ! i"
    and "wf_frame (proc_context (slot k p))" "wf_frame (trap_frame k)"
  shows "\<exists>k'. proc_execv (Some filename) argv k = Some (0, k')
     \<and> regs (proc_context (slot k' p)) ! REG_A0 = 7
     \<and> regs (trap_frame k') ! REG_A0 = 7
     \<and> pc (proc_context (slot k' p)) = entry_point program
     \<and> regs (proc_context (slot k' p)) ! REG_RA = entry_point program
     \<and> regs (proc_context (slot k' p)) ! REG_SP = page_address k pg + of_nat PAGE_SIZE
     \<and> regs (proc_context (slot k' p)) ! REG_FP = page_address k pg + of_nat PAGE_SIZE
     \<and> regs (proc_context (slot k' p)) ! REG_A1 = argv
     \<and> regs (trap_frame k') = regs (proc_context (slot k' p))
     \<and> stack_page (slot k' p) = page_address k pg
     \<and> page_bitmap k' = (page_bitmap k)[pg := True, i := False]
     \<and> \<not> page_bitmap k' ! i
     \<and> memory k' = memory k"
proof -
  note alloc = allocate_page_found [OF assms(3)]
  have len: "length (regs (proc_context (slot k p))) = 32"
    using assms(12) by (simp add: wf_frame_def)
  have "i \<noteq> pg" using alloc(3) assms(11) by auto
  moreover have "i < length (page_bitmap k)"
    using assms(10) by (simp add: page_number_def Let_def split: if_splits)
  ultimately have bit: "\<not> (page_bitmap k)[pg := True, i := False] ! i"
    by simp
  show ?thesis
    using len assms(13) bit
    by (simp add: proc_execv_success [OF assms(1-11)] slot_upd_slot [OF assms(8,8,4)]
        regs_copy_context wf_frame_def REG_A0_def REG_A1_def REG_RA_def REG_SP_def REG_FP_def)
qed

theorem proc_execv_a0_is_7_witness:
  "\<exists>k'. proc_execv (Some ''shell'') 0x80100FF0 one_proc_kernel = Some (0, k')
     \<and> regs (proc_context (slot k' 0)) ! REG_A0 = 7
     \<and> regs (trap_frame k') ! REG_A0 = 7
     \<and> pc (proc_context (slot k' 0)) = 0x80001000
     \<and> regs (proc_context (slot k' 0)) ! REG_RA = 0x80001000
     \<and> regs (proc_context (slot k' 0)) ! REG_SP = 0x80102000
     \<and> regs (proc_context (slot k' 0)) ! REG_FP = 0x80102000
     \<and> regs (proc_context (slot k' 0)) ! REG_A1 = 0x80100FF0
     \<and> stack_page (slot k' 0) = 0x80101000
     \<and> page_bitmap k' = [False, True, False, False]"
proof -
  have w: "wf_pages one_proc_kernel"
    by (simp add: wf_pages_def one_proc_kernel_def boot_kernel_def PAGE_SIZE_def)
  have h: "find_user_program ''shell'' one_proc_kernel
        = Some \<lparr>entry_point = 0x80001000, program_name = ''shell''\<rparr>"
    "find (\<lambda>i. \<not> page_bitmap one_proc_kernel ! i) [0..<length (page_bitmap one_proc_kernel)]
        = Some 1"
    "length (procs (proc_table one_proc_kernel)) = MAX_PROCS"
    "\<not> table_lock (proc_table one_proc_kernel)" "num_procs (proc_table one_proc_kernel) \<noteq> 0"
    "curr_proc (proc_table one_proc_kernel) = 0" "valid_slot 0"
    "\<not> lock (slot one_proc_kernel 0)"
    "page_number one_proc_kernel (stack_page (slot one_proc_kernel 0)) = Some 0"
    "page_bitmap one_proc_kernel ! 0"
    "wf_frame (proc_context (slot one_proc_kernel 0))" "wf_frame (trap_frame one_proc_kernel)"
    by code_simp+
  have v: "page_address one_proc_kernel (Suc 0) = 0x80101000"
    "(page_bitmap one_proc_kernel)[Suc 0 := True, 0 := False] = [False, True, False, False]"
    by code_simp+
  have t: "(0x80101000 :: regsize_t) + of_nat PAGE_SIZE = 0x80102000"
    by (simp add: PAGE_SIZE_def)
  show ?thesis
    using proc_execv_a0_is_7 [OF h(1) w h(2-12), of "0x80100FF0"]
    by (simp add: v t, blast)
qed

end
